theory Spec2Isabelle
  imports Complex_Main
begin

section \<open>s3-spa-upload: the upload and reconciliation core\<close>

text \<open>
  A shallow embedding of the latest revision of the core module (the one with
  \<^verbatim>\<open>CACHE_ONE_MIN_SWR_ONE_MONTH\<close>, the fastq work queue and the redirect retry) and of
  the concurrency check of its command-line wrapper. JavaScript strings are \<open>string\<close>,
  \<^verbatim>\<open>undefined\<close> is \<open>None\<close>, a thrown error or rejected promise is the \<open>Inl\<close> of a sum.
\<close>

subsection \<open>Strings\<close>

text \<open>\<^verbatim>\<open>s.startsWith(p)\<close> and \<^verbatim>\<open>s.endsWith(p)\<close>.\<close>

fun startsWith :: "string \<Rightarrow> string \<Rightarrow> bool" where
  "startsWith s [] = True"
| "startsWith [] (p # ps) = False"
| "startsWith (c # cs) (p # ps) = (c = p \<and> startsWith cs ps)"

definition endsWith :: "string \<Rightarrow> string \<Rightarrow> bool" where
  "endsWith s p = startsWith (rev s) (rev p)"

text \<open>The number of separators \<^verbatim>\<open>/\<close> a string ends in.\<close>

definition trailingSeparators :: "string \<Rightarrow> nat" where
  "trailingSeparators s = length (takeWhile (\<lambda>c. c = CHR ''/'') (rev s))"

text \<open>The decimal numeral of a number, as it stands in a cache-control directive.\<close>

fun decimal :: "nat \<Rightarrow> string" where
  "decimal n =
     (if n < 10 then [''0123456789'' ! n]
      else decimal (n div 10) @ [''0123456789'' ! (n mod 10)])"

declare decimal.simps [simp del]

subsection \<open>Numbers\<close>

text \<open>
  A JavaScript number: a finite value, taken as a real number, \<^verbatim>\<open>NaN\<close>, or one of the
  two infinities. \<open>number_lt a b\<close> is \<^verbatim>\<open>a < b\<close> and \<open>number_ge a b\<close> is \<^verbatim>\<open>a >= b\<close>;
  both are false when either side is \<^verbatim>\<open>NaN\<close>.
\<close>

datatype Number = Finite real | NaN | PosInfinity | NegInfinity

fun number_lt :: "Number \<Rightarrow> Number \<Rightarrow> bool" where
  "number_lt (Finite a) (Finite b) = (a < b)"
| "number_lt (Finite a) PosInfinity = True"
| "number_lt NegInfinity (Finite b) = True"
| "number_lt NegInfinity PosInfinity = True"
| "number_lt a b = False"

definition number_ge :: "Number \<Rightarrow> Number \<Rightarrow> bool" where
  "number_ge a b = (number_lt b a \<or> (a = b \<and> a \<noteq> NaN))"

subsection \<open>The options of a run\<close>

type_synonym CacheControlMapping = "(string \<times> string) list"

text \<open>
  The interface \<^verbatim>\<open>Options\<close>; every field is optional. The fields carry the suffix
  \<open>_opt\<close>, which leaves the plain names to the parameters of the functions.
  Credentials play no part in what follows and are left out.
\<close>

record Options =
  delete_opt :: "bool option"
  cacheControlMapping_opt :: "CacheControlMapping option"
  prefix_opt :: "string option"
  concurrency_opt :: "Number option"

subsection \<open>Cache-control constants and the default mapping\<close>

definition CACHE_FOREVER :: string where
  "CACHE_FOREVER = ''public,max-age=31536000,immutable''"

definition CACHE_ONE_DAY_SWR_ONE_MONTH :: string where
  "CACHE_ONE_DAY_SWR_ONE_MONTH = ''public,max-age=86400,stale-while-revalidate=2592000''"

definition NO_CACHE :: string where
  "NO_CACHE = ''no-cache''"

definition CACHE_ONE_MIN_SWR_ONE_MONTH :: string where
  "CACHE_ONE_MIN_SWR_ONE_MONTH = ''public,max-age=60,stale-while-revalidate=2592000''"

text \<open>
  The object literal, as the list of its properties in the order they are written. None
  of its keys is an array index, so this is also the order \<^verbatim>\<open>Object.entries\<close> yields.
\<close>

definition DEFAULT_CACHE_CONTROL_MAPPING :: CacheControlMapping where
  "DEFAULT_CACHE_CONTROL_MAPPING =
     [(''index.html'', CACHE_ONE_MIN_SWR_ONE_MONTH),
      (''*.css'', CACHE_FOREVER),
      (''*.js'', CACHE_FOREVER),
      (''*.png'', CACHE_ONE_DAY_SWR_ONE_MONTH),
      (''*.ico'', CACHE_ONE_DAY_SWR_ONE_MONTH),
      (''*.txt'', CACHE_ONE_DAY_SWR_ONE_MONTH)]"

subsection \<open>Cache-control resolution\<close>

text \<open>
  A mapping is a JavaScript object, given here by its properties in creation order.
  \<^verbatim>\<open>Object.entries\<close> does not always yield that order: keys that are array indices (the
  canonical numerals of \<open>0 \<dots> 2\<^sup>3\<^sup>2 - 2\<close>) come first, in ascending numeric order,
  and the other keys follow in creation order.
\<close>

definition digitValue :: "char \<Rightarrow> nat" where
  "digitValue c = length (takeWhile (\<lambda>d. d \<noteq> c) ''0123456789'')"

definition isDigit :: "char \<Rightarrow> bool" where
  "isDigit c = (digitValue c < 10)"

definition natOfDecimal :: "string \<Rightarrow> nat" where
  "natOfDecimal k = foldl (\<lambda>n c. 10 * n + digitValue c) 0 k"

definition isArrayIndex :: "string \<Rightarrow> bool" where
  "isArrayIndex k =
     (k \<noteq> [] \<and> list_all isDigit k \<and> (k = ''0'' \<or> hd k \<noteq> CHR ''0'')
      \<and> natOfDecimal k < 4294967295)"

definition Object_entries :: "CacheControlMapping \<Rightarrow> CacheControlMapping" where
  "Object_entries obj =
     sort_key (\<lambda>e. natOfDecimal (fst e)) (filter (\<lambda>e. isArrayIndex (fst e)) obj)
     @ filter (\<lambda>e. \<not> isArrayIndex (fst e)) obj"

text \<open>
  \<^verbatim>\<open>for (let [glob, cacheControl] of Object.entries(cacheControlMapping))
    if (minimatch(filepath, glob, { matchBase: true })) return cacheControl;\<close>
  The matcher is a library of its own; it is a parameter here, applied as
  \<open>minimatch filepath glob\<close> with the option \<^verbatim>\<open>matchBase\<close> understood. Falling out of
  the loop returns \<^verbatim>\<open>undefined\<close>.
\<close>

fun firstMatching :: "(string \<Rightarrow> string \<Rightarrow> bool) \<Rightarrow> string \<Rightarrow> CacheControlMapping \<Rightarrow> string option" where
  "firstMatching minimatch filepath [] = None"
| "firstMatching minimatch filepath ((glob, cacheControl) # rest) =
     (if minimatch filepath glob then Some cacheControl
      else firstMatching minimatch filepath rest)"

definition getCacheControl :: "(string \<Rightarrow> string \<Rightarrow> bool) \<Rightarrow> string \<Rightarrow> CacheControlMapping \<Rightarrow> string option" where
  "getCacheControl minimatch filepath cacheControlMapping =
     firstMatching minimatch filepath (Object_entries cacheControlMapping)"

text \<open>
  A matcher to instantiate the parameter with in examples. It covers the patterns the
  default mapping uses: literal characters, \<^verbatim>\<open>?\<close> and \<^verbatim>\<open>*\<close> (neither crosses a
  separator, nor matches the dot a name starts with). A pattern without a separator is
  matched against the last segment of the path, as \<^verbatim>\<open>matchBase\<close> asks.
\<close>

fun globSegment :: "string \<Rightarrow> string \<Rightarrow> bool" where
  "globSegment [] s = (s = [])"
| "globSegment (p # ps) [] = (p = CHR ''*'' \<and> globSegment ps [])"
| "globSegment (p # ps) (c # cs) =
     (if p = CHR ''*''
      then globSegment ps (c # cs) \<or> (c \<noteq> CHR ''/'' \<and> globSegment (p # ps) cs)
      else (p = c \<or> (p = CHR ''?'' \<and> c \<noteq> CHR ''/'')) \<and> globSegment ps cs)"

definition basename :: "string \<Rightarrow> string" where
  "basename path = rev (takeWhile (\<lambda>c. c \<noteq> CHR ''/'') (rev path))"

definition globMatchBase :: "string \<Rightarrow> string \<Rightarrow> bool" where
  "globMatchBase path glob =
     (let name = (if CHR ''/'' \<in> set glob then path else basename path)
      in (if startsWith name ''.'' then startsWith glob ''.'' else True)
         \<and> globSegment glob name)"

subsection \<open>Regular expressions\<close>

text \<open>
  The regular expressions met here are sequences of single-character matchers, some of
  them quantified, with one capture group and anchors. JavaScript matches them by
  backtracking: a quantifier is greedy and takes as much as it can, or lazy (written
  with a second \<^verbatim>\<open>?\<close>) and takes as little as it can, and the leftmost start that
  matches wins.
\<close>

datatype CharClass = Lit char | AnyChar | OneOf "char list"

fun accepts :: "CharClass \<Rightarrow> char \<Rightarrow> bool" where
  "accepts (Lit a) c = (c = a)"
| "accepts AnyChar c = (c \<noteq> CHR 0x0A \<and> c \<noteq> CHR 0x0D)"
| "accepts (OneOf as) c = (c \<in> set as)"

datatype Token =
  One CharClass | Opt CharClass | Star CharClass | Plus CharClass
  | OptLazy CharClass | StarLazy CharClass | PlusLazy CharClass
  | GroupOpen | GroupClose | Bol | Eol

datatype Capture = NotEntered | Recording string | Captured string

fun consume :: "char \<Rightarrow> Capture \<Rightarrow> Capture" where
  "consume c (Recording g) = Recording (g @ [c])"
| "consume c cap = cap"

fun closeGroup :: "Capture \<Rightarrow> Capture" where
  "closeGroup (Recording g) = Captured g"
| "closeGroup cap = cap"

text \<open>
  \<open>matchHere ts s start cap\<close> matches the tokens at the head of \<open>s\<close>; \<open>start\<close> says
  that \<open>s\<close> is the whole input. It returns what is left of the input, and the capture.
\<close>

fun matchHere :: "Token list \<Rightarrow> string \<Rightarrow> bool \<Rightarrow> Capture \<Rightarrow> (string \<times> Capture) option" where
  "matchHere [] s start cap = Some (s, cap)"
| "matchHere (Bol # ts) s start cap = (if start then matchHere ts s start cap else None)"
| "matchHere (Eol # ts) s start cap = (if s = [] then matchHere ts s start cap else None)"
| "matchHere (GroupOpen # ts) s start cap = matchHere ts s start (Recording [])"
| "matchHere (GroupClose # ts) s start cap = matchHere ts s start (closeGroup cap)"
| "matchHere (One cl # ts) [] start cap = None"
| "matchHere (One cl # ts) (c # cs) start cap =
     (if accepts cl c then matchHere ts cs False (consume c cap) else None)"
| "matchHere (Opt cl # ts) [] start cap = matchHere ts [] start cap"
| "matchHere (Opt cl # ts) (c # cs) start cap =
     (if accepts cl c
      then (case matchHere ts cs False (consume c cap) of
              Some r \<Rightarrow> Some r
            | None \<Rightarrow> matchHere ts (c # cs) start cap)
      else matchHere ts (c # cs) start cap)"
| "matchHere (Star cl # ts) [] start cap = matchHere ts [] start cap"
| "matchHere (Star cl # ts) (c # cs) start cap =
     (if accepts cl c
      then (case matchHere (Star cl # ts) cs False (consume c cap) of
              Some r \<Rightarrow> Some r
            | None \<Rightarrow> matchHere ts (c # cs) start cap)
      else matchHere ts (c # cs) start cap)"
| "matchHere (Plus cl # ts) [] start cap = None"
| "matchHere (Plus cl # ts) (c # cs) start cap =
     (if accepts cl c then matchHere (Star cl # ts) cs False (consume c cap) else None)"
| "matchHere (OptLazy cl # ts) [] start cap = matchHere ts [] start cap"
| "matchHere (OptLazy cl # ts) (c # cs) start cap =
     (case matchHere ts (c # cs) start cap of
        Some r \<Rightarrow> Some r
      | None \<Rightarrow> if accepts cl c then matchHere ts cs False (consume c cap) else None)"
| "matchHere (StarLazy cl # ts) [] start cap = matchHere ts [] start cap"
| "matchHere (StarLazy cl # ts) (c # cs) start cap =
     (case matchHere ts (c # cs) start cap of
        Some r \<Rightarrow> Some r
      | None \<Rightarrow>
          if accepts cl c then matchHere (StarLazy cl # ts) cs False (consume c cap)
          else None)"
| "matchHere (PlusLazy cl # ts) [] start cap = None"
| "matchHere (PlusLazy cl # ts) (c # cs) start cap =
     (if accepts cl c then matchHere (StarLazy cl # ts) cs False (consume c cap) else None)"

text \<open>The leftmost match: what is skipped before it, what follows it, and the capture.\<close>

fun regexSearch :: "Token list \<Rightarrow> string \<Rightarrow> string \<Rightarrow> (string \<times> string \<times> Capture) option" where
  "regexSearch ts skipped [] =
     (case matchHere ts [] (skipped = []) NotEntered of
        Some (rest, cap) \<Rightarrow> Some (skipped, rest, cap)
      | None \<Rightarrow> None)"
| "regexSearch ts skipped (c # cs) =
     (case matchHere ts (c # cs) (skipped = []) NotEntered of
        Some (rest, cap) \<Rightarrow> Some (skipped, rest, cap)
      | None \<Rightarrow> regexSearch ts (skipped @ [c]) cs)"

text \<open>\<^verbatim>\<open>s.match(re)?.[1]\<close>: the first group of the match, \<^verbatim>\<open>undefined\<close> without a match.\<close>

definition matchGroup1 :: "Token list \<Rightarrow> string \<Rightarrow> string option" where
  "matchGroup1 ts s =
     (case regexSearch ts [] s of
        Some (skipped, rest, Captured g) \<Rightarrow> Some g
      | _ \<Rightarrow> None)"

text \<open>\<^verbatim>\<open>s.replace(re, "")\<close>: the input without its first match.\<close>

definition replaceWithEmpty :: "Token list \<Rightarrow> string \<Rightarrow> string" where
  "replaceWithEmpty ts s =
     (case regexSearch ts [] s of
        Some (skipped, rest, cap) \<Rightarrow> skipped @ rest
      | None \<Rightarrow> s)"

definition literal :: "string \<Rightarrow> Token list" where
  "literal s = map (\<lambda>c. One (Lit c)) s"

text \<open>\<^verbatim>\<open>/.+\.s3[-\.]?(.*)\.amazonaws.com$/\<close>; the dot before \<^verbatim>\<open>com\<close> is not escaped.\<close>

definition redirectRegExp :: "Token list" where
  "redirectRegExp =
     [Plus AnyChar] @ literal ''.s3'' @ [Opt (OneOf ''-.''), GroupOpen, Star AnyChar, GroupClose]
     @ literal ''.amazonaws'' @ [One AnyChar] @ literal ''com'' @ [Eol]"

text \<open>
  \<^verbatim>\<open>new RegExp(pattern)\<close> for a pattern written with ordinary characters, the dot, the
  anchors \<^verbatim>\<open>^\<close> and \<^verbatim>\<open>$\<close> and the quantifiers \<^verbatim>\<open>*\<close>, \<^verbatim>\<open>+\<close> and \<^verbatim>\<open>?\<close>. A quantifier
  applies to the character or dot before it, and a \<^verbatim>\<open>?\<close> after a quantifier makes it
  lazy; a quantifier with nothing to repeat (at the start, after an anchor or after a
  complete quantifier) is a \<^verbatim>\<open>SyntaxError\<close>, which is the result \<open>None\<close>. The
  brackets \<^verbatim>\<open>]\<close> and \<^verbatim>\<open>}\<close> stand for themselves. Patterns with a backslash, a group,
  a character class, an alternative or an opening brace are beyond this parser
  (\<open>beyondParser\<close>).
\<close>

definition beyondParser :: "string \<Rightarrow> bool" where
  "beyondParser pattern = list_ex (\<lambda>c. c \<in> set (CHR 0x5C # ''()[{|'')) pattern"

text \<open>
  What the parser has read and not yet put out: nothing that could be repeated, a
  character that a quantifier may follow, or a quantified character that \<^verbatim>\<open>?\<close> may
  make lazy.
\<close>

datatype Held = NoAtom | Atom CharClass | Quantified Token

fun flush :: "Held \<Rightarrow> Token list" where
  "flush NoAtom = []"
| "flush (Atom cl) = [One cl]"
| "flush (Quantified t) = [t]"

definition quantify :: "char \<Rightarrow> CharClass \<Rightarrow> Token" where
  "quantify q cl = (if q = CHR ''*'' then Star cl else if q = CHR ''+'' then Plus cl else Opt cl)"

fun lazy :: "Token \<Rightarrow> Token" where
  "lazy (Opt cl) = OptLazy cl"
| "lazy (Star cl) = StarLazy cl"
| "lazy (Plus cl) = PlusLazy cl"
| "lazy t = t"

definition putOut :: "Token list \<Rightarrow> Token list option \<Rightarrow> Token list option" where
  "putOut ts r = map_option (\<lambda>ts'. ts @ ts') r"

fun parseTerms :: "Held \<Rightarrow> string \<Rightarrow> Token list option" where
  "parseTerms p [] = Some (flush p)"
| "parseTerms p (c # cs) =
     (if c \<in> set ''*+?'' then
        (case p of
           NoAtom \<Rightarrow> None
         | Atom cl \<Rightarrow> parseTerms (Quantified (quantify c cl)) cs
         | Quantified t \<Rightarrow>
             if c = CHR ''?'' then putOut [lazy t] (parseTerms NoAtom cs) else None)
      else if c = CHR ''^'' then putOut (flush p @ [Bol]) (parseTerms NoAtom cs)
      else if c = CHR ''$'' then putOut (flush p @ [Eol]) (parseTerms NoAtom cs)
      else putOut (flush p)
             (parseTerms (Atom (if c = CHR ''.'' then AnyChar else Lit c)) cs))"

definition parseRegExp :: "string \<Rightarrow> Token list option" where
  "parseRegExp pattern = parseTerms NoAtom pattern"

text \<open>
  The characters with a meaning of their own in a pattern, a directory name without
  any of them, and the pattern \<^verbatim>\<open>^dir/?\<close> of such a directory: a dot in it matches any
  character, and every other character stands for itself.
\<close>

definition isSyntaxCharacter :: "char \<Rightarrow> bool" where
  "isSyntaxCharacter c = (c \<in> set (CHR 0x5C # ''^$*+?()[]{}|''))"

definition plainDir :: "string \<Rightarrow> bool" where
  "plainDir dir = list_all (\<lambda>c. \<not> isSyntaxCharacter c) dir"

definition dirToken :: "char \<Rightarrow> Token" where
  "dirToken c = (if c = CHR ''.'' then One AnyChar else One (Lit c))"

definition dirRegExp :: "string \<Rightarrow> Token list" where
  "dirRegExp dir = [Bol] @ map dirToken dir @ [Opt (Lit (CHR ''/''))]"

subsection \<open>Paths and the directory tree\<close>

text \<open>
  \<^verbatim>\<open>path.join(directoryPath, entry)\<close> for a normalised directory and the name of one of
  its entries, and \<^verbatim>\<open>path.resolve(dir)\<close> for a normalised \<open>dir\<close>, on a POSIX system.
\<close>

definition joinPath :: "string \<Rightarrow> string \<Rightarrow> string" where
  "joinPath directoryPath entry =
     (if endsWith directoryPath ''/'' then directoryPath @ entry
      else directoryPath @ ''/'' @ entry)"

definition resolve :: "string \<Rightarrow> string \<Rightarrow> string" where
  "resolve cwd dir = (if startsWith dir ''/'' then dir else joinPath cwd dir)"

text \<open>
  What \<^verbatim>\<open>readdirSync\<close> and \<^verbatim>\<open>statSync\<close> find: regular files, directories with
  their entries, entries that are neither, and entries on which either call throws.
\<close>

datatype Entry =
  File string | Directory string "Entry list" | Other string | Unreadable string

datatype S3Error = S3Error (Code: "string option") (Endpoint: "string option")

text \<open>
  What a run can end with: an error of the object store, a \<^verbatim>\<open>TypeError\<close>, a
  \<^verbatim>\<open>SyntaxError\<close>, an error of the file system, and the errors thrown by the
  constructor of the storage client, by the constructor of the work queue and by the
  check of the command line.
\<close>

datatype Failure =
  ServiceError S3Error | TypeError | SyntaxError | FileSystemError | ClientError
  | QueueError | UsageError

text \<open>
  The inner function \<^verbatim>\<open>buildFileList\<close> of \<^verbatim>\<open>walkDirectory\<close>; the accumulator
  \<open>filePaths\<close> is the array the source pushes to.
\<close>

fun buildFileList :: "string \<Rightarrow> Entry list \<Rightarrow> string list \<Rightarrow> Failure + string list" where
  "buildFileList directoryPath [] filePaths = Inr filePaths"
| "buildFileList directoryPath (File entry # entries) filePaths =
     buildFileList directoryPath entries (filePaths @ [joinPath directoryPath entry])"
| "buildFileList directoryPath (Directory entry children # entries) filePaths =
     (case buildFileList (joinPath directoryPath entry) children filePaths of
        Inl e \<Rightarrow> Inl e
      | Inr filePaths' \<Rightarrow> buildFileList directoryPath entries filePaths')"
| "buildFileList directoryPath (Other entry # entries) filePaths =
     buildFileList directoryPath entries filePaths"
| "buildFileList directoryPath (Unreadable entry # entries) filePaths = Inl FileSystemError"

subsection \<open>The object store and the platform\<close>

record S3Client =
  region :: "string option"

record PutObjectParams =
  Bucket :: string
  Key :: string
  Body :: string
  CacheControl :: "string option"
  ContentType :: "string option"

text \<open>An object of a listing page (its key is optional in the SDK's type), and a page.\<close>

record S3Object =
  Key_obj :: "string option"

record ListPage =
  Contents :: "S3Object list option"

text \<open>
  What the module calls and does not define: the working directory, the file system, the
  MIME table (\<^verbatim>\<open>contentType(extname(filePath)) || undefined\<close>), the glob matcher, the
  regular-expression engine for the patterns beyond the parser above
  (\<^verbatim>\<open>s.replace(new RegExp(pattern), "")\<close>, or the error that \<^verbatim>\<open>new RegExp\<close> throws),
  whether the constructor of the storage client accepts a region
  (\<^verbatim>\<open>new S3Client({ region })\<close> throws otherwise), and the three operations of the object
  store (\<open>None\<close> is an acknowledgement; a listing is the sequence of pages the paginator
  yields, or the error it throws at that point). Puts that are outstanding together are
  answered in an order the module does not choose: after \<open>n\<close> answers, the next answer
  is for the outstanding put at position \<open>s3_answers n\<close> (modulo their number), counted
  in the order they were sent.
\<close>

record Platform =
  os_cwd :: string
  fs_tree :: "string \<Rightarrow> Entry list option"
  fs_readFile :: "string \<Rightarrow> string option"
  mime_contentType :: "string \<Rightarrow> string option"
  glob_minimatch :: "string \<Rightarrow> string \<Rightarrow> bool"
  RegExp_replace :: "string \<Rightarrow> string \<Rightarrow> Failure + string"
  S3Client_accepts :: "string \<Rightarrow> bool"
  s3_putObject :: "S3Client \<Rightarrow> PutObjectParams \<Rightarrow> S3Error option"
  s3_deleteObject :: "S3Client \<Rightarrow> string \<Rightarrow> string \<Rightarrow> S3Error option"
  s3_listObjectsV2 :: "S3Client \<Rightarrow> string \<Rightarrow> string \<Rightarrow> (S3Error + ListPage) list"
  s3_answers :: "nat \<Rightarrow> nat"

text \<open>
  How an asynchronous function ends: it returns, it throws (its promise is rejected, or
  a rejection nobody handles ends the process), or its promise is never settled.
\<close>

datatype 'a Outcome = Returned 'a | Thrown Failure | Pending

subsection \<open>The upload executor\<close>

text \<open>The object \<^verbatim>\<open>params\<close> of \<^verbatim>\<open>uploadToS3\<close>, for the contents \<open>body\<close> of the file.\<close>

definition putObjectParams ::
  "Platform \<Rightarrow> string \<Rightarrow> string \<Rightarrow> string \<Rightarrow> string option \<Rightarrow> CacheControlMapping option
     \<Rightarrow> string \<Rightarrow> PutObjectParams" where
  "putObjectParams pf bucket key filePath prefix cacheControlMapping body =
     \<lparr>Bucket = bucket,
      Key = (case prefix of None \<Rightarrow> '''' | Some p \<Rightarrow> p) @ key,
      Body = body,
      CacheControl =
        getCacheControl (glob_minimatch pf) filePath
          (case cacheControlMapping of
             None \<Rightarrow> DEFAULT_CACHE_CONTROL_MAPPING
           | Some m \<Rightarrow> m),
      ContentType = mime_contentType pf filePath\<rparr>"

text \<open>
  \<^verbatim>\<open>uploadToS3\<close> up to the put: the file is read and \<^verbatim>\<open>params\<close> is built. The defaults
  of \<open>prefix\<close> and \<open>cacheControlMapping\<close> apply when the argument is \<^verbatim>\<open>undefined\<close>.
  When \<^verbatim>\<open>readFileSync\<close> throws, the promise of the call is rejected.
\<close>

definition uploadToS3_params ::
  "Platform \<Rightarrow> string \<Rightarrow> string \<Rightarrow> string \<Rightarrow> string option \<Rightarrow> CacheControlMapping option
     \<Rightarrow> Failure + PutObjectParams" where
  "uploadToS3_params pf bucket key filePath prefix cacheControlMapping =
     (case fs_readFile pf filePath of
        None \<Rightarrow> Inl FileSystemError
      | Some body \<Rightarrow>
          Inr (putObjectParams pf bucket key filePath prefix cacheControlMapping body))"

text \<open>
  The handler that \<^verbatim>\<open>uploadToS3\<close> gives to \<^verbatim>\<open>.catch\<close>, up to the second put. It
  returns the regions it handed to the constructor of the client, and either the new
  client, which it has stored in \<^verbatim>\<open>_s3client\<close> and sends the put through once more, or
  the error it throws. A redirect error without an endpoint makes \<^verbatim>\<open>.match\<close> throw a
  \<^verbatim>\<open>TypeError\<close>; \<^verbatim>\<open>redirectRegion ?? "us-east-1"\<close> replaces \<^verbatim>\<open>undefined\<close> only; when the
  constructor throws, \<^verbatim>\<open>_s3client\<close> keeps its value. Any other error is thrown again.
\<close>

definition uploadToS3_catch :: "Platform \<Rightarrow> S3Error \<Rightarrow> string list \<times> (Failure + S3Client)" where
  "uploadToS3_catch pf err =
     (if Code err = Some ''PermanentRedirect'' then
        (case Endpoint err of
           None \<Rightarrow> ([], Inl TypeError)
         | Some endpoint \<Rightarrow>
             let redirectRegion = matchGroup1 redirectRegExp endpoint;
                 region' = (case redirectRegion of None \<Rightarrow> ''us-east-1'' | Some r \<Rightarrow> r)
             in
               ([region'],
                if S3Client_accepts pf region' then Inr \<lparr>region = Some region'\<rparr>
                else Inl ClientError))
      else ([], Inl (ServiceError err)))"

text \<open>
  \<^verbatim>\<open>uploadToS3\<close>, for a call that runs from start to end with no other call in between.
  The module-level \<^verbatim>\<open>_s3client\<close> is passed in and returned; \<open>sends\<close> lists the put
  requests in the order they were sent, each with the client it was sent through, and
  \<open>constructed\<close> lists the regions handed to \<^verbatim>\<open>new S3Client\<close>.
\<close>

record Upload =
  s3client :: S3Client
  sends :: "(S3Client \<times> PutObjectParams) list"
  constructed :: "string list"
  result :: "Failure + string"

definition uploadToS3 ::
  "Platform \<Rightarrow> S3Client \<Rightarrow> string \<Rightarrow> string \<Rightarrow> string \<Rightarrow> string option
     \<Rightarrow> CacheControlMapping option \<Rightarrow> Upload" where
  "uploadToS3 pf client bucket key filePath prefix cacheControlMapping =
     (case uploadToS3_params pf bucket key filePath prefix cacheControlMapping of
        Inl e \<Rightarrow> \<lparr>s3client = client, sends = [], constructed = [], result = Inl e\<rparr>
      | Inr params \<Rightarrow>
          (case s3_putObject pf client params of
             None \<Rightarrow>
               \<lparr>s3client = client, sends = [(client, params)], constructed = [],
                result = Inr (Key params)\<rparr>
           | Some err \<Rightarrow>
               (case uploadToS3_catch pf err of
                  (regions, Inl e) \<Rightarrow>
                    \<lparr>s3client = client, sends = [(client, params)], constructed = regions,
                     result = Inl e\<rparr>
                | (regions, Inr client') \<Rightarrow>
                    (case s3_putObject pf client' params of
                       None \<Rightarrow>
                         \<lparr>s3client = client',
                          sends = [(client, params), (client', params)],
                          constructed = regions, result = Inr (Key params)\<rparr>
                     | Some err' \<Rightarrow>
                         \<lparr>s3client = client',
                          sends = [(client, params), (client', params)],
                          constructed = regions, result = Inl (ServiceError err')\<rparr>))))"

subsection \<open>The directory walker and its work queue\<close>

text \<open>
  Modelled from the spec: the work queue of \<^verbatim>\<open>walkDirectory\<close> and \<^verbatim>\<open>removeOldFiles\<close>
  (the package \<^verbatim>\<open>fastq\<close>, which the repository imports and does not contain). The spec
  asks for a queue with a concurrency limit \<open>N \<ge> 1\<close> that accepts items one at a time
  and has at most \<open>N\<close> calls of the worker outstanding. The constructor refuses a limit
  that is not at least 1. The queue starts a pushed item at once when fewer than \<open>N\<close>
  are running and lets it wait otherwise; when a running item has settled, the item
  that waits is started; \<^verbatim>\<open>q.drained()\<close> returns once nothing runs and nothing waits.
\<close>

definition fastq_accepts :: "Number \<Rightarrow> bool" where
  "fastq_accepts concurrency = number_ge concurrency (Finite 1)"

definition fastq_starts :: "nat \<Rightarrow> Number \<Rightarrow> bool" where
  "fastq_starts nrRunning concurrency = number_lt (Finite (real nrRunning)) concurrency"

text \<open>
  What the uploader does with a file when the queue starts its job, before anything is
  awaited: it throws, it returns a promise that is rejected already, or it sends a put.
\<close>

datatype Started = Throws Failure | Rejects Failure | Sends PutObjectParams

text \<open>
  A job the queue is running: a put that is outstanding, with the client it was sent
  through and its parameters, or a job whose promise is rejected already. The first
  flag says whether the loop of \<^verbatim>\<open>walkDirectory\<close> awaits the job; the second flag of
  a put, whether it is the second put of its upload.
\<close>

datatype Job = Put bool bool S3Client PutObjectParams | Rejected bool Failure

fun awaited :: "Job \<Rightarrow> bool" where
  "awaited (Put a retry client params) = a"
| "awaited (Rejected a e) = a"

text \<open>
  The state of \<^verbatim>\<open>walkDirectory\<close>'s loop and queue: the files not yet pushed, the file
  that waits in the queue (the loop pushes no further while one waits, so there is at
  most one), the running jobs in the order they were started, the module's
  \<^verbatim>\<open>_s3client\<close>, the puts sent so far, \<^verbatim>\<open>uploadedS3Keys\<close>, and the number of answers
  received.
\<close>

record Uploads =
  up_todo :: "string list"
  up_waiting :: "string option"
  up_running :: "Job list"
  up_client :: S3Client
  up_sent :: "(S3Client \<times> PutObjectParams) list"
  up_keys :: "string list"
  up_answers :: nat

record Walk =
  w_client :: S3Client
  w_sends :: "(S3Client \<times> PutObjectParams) list"
  w_outcome :: "string list Outcome"

definition ended :: "Uploads \<Rightarrow> string list Outcome \<Rightarrow> Walk" where
  "ended st out = \<lparr>w_client = up_client st, w_sends = up_sent st, w_outcome = out\<rparr>"

text \<open>The queue starts the job of a file: the worker is called, with the uploader.\<close>

definition launch :: "(string \<Rightarrow> Started) \<Rightarrow> bool \<Rightarrow> string \<Rightarrow> Uploads \<Rightarrow> Failure + Uploads" where
  "launch s3uploader a filePath st =
     (case s3uploader filePath of
        Throws e \<Rightarrow> Inl e
      | Rejects e \<Rightarrow> Inr (st\<lparr>up_running := up_running st @ [Rejected a e]\<rparr>)
      | Sends params \<Rightarrow>
          Inr (st\<lparr>up_running := up_running st @ [Put a False (up_client st) params],
                  up_sent := up_sent st @ [(up_client st, params)]\<rparr>))"

text \<open>
  A running job has settled and is gone from the queue: the file that waits is started.
  The loop awaits it, since it has pushed nothing after it.
\<close>

definition release :: "(string \<Rightarrow> Started) \<Rightarrow> Uploads \<Rightarrow> Failure + Uploads" where
  "release s3uploader st =
     (case up_waiting st of
        None \<Rightarrow> Inr st
      | Some filePath \<Rightarrow> launch s3uploader True filePath (st\<lparr>up_waiting := None\<rparr>))"

text \<open>
  A job has failed: the promise of its push is rejected and the source rethrows. When
  the loop awaits that promise, \<^verbatim>\<open>walkDirectory\<close> throws; otherwise nobody handles the
  rejection, which ends the process. The queue has started the waiting file by then.
\<close>

definition failed :: "(string \<Rightarrow> Started) \<Rightarrow> Uploads \<Rightarrow> Failure \<Rightarrow> Walk" where
  "failed s3uploader st e =
     (case release s3uploader st of
        Inl e' \<Rightarrow> ended st (Thrown e)
      | Inr st' \<Rightarrow> ended st' (Thrown e))"

text \<open>The first job whose promise is rejected already, and the other jobs.\<close>

fun rejection :: "Job list \<Rightarrow> (Failure \<times> Job list) option" where
  "rejection [] = None"
| "rejection (Rejected a e # jobs) = Some (e, jobs)"
| "rejection (Put a retry client params # jobs) =
     (case rejection jobs of
        None \<Rightarrow> None
      | Some (e, jobs') \<Rightarrow> Some (e, Put a retry client params # jobs'))"

text \<open>
  The loop is held up while the file it pushed last waits in the queue or runs
  (\<^verbatim>\<open>if (q.length() > 0) await p\<close>).
\<close>

definition blocked :: "Uploads \<Rightarrow> bool" where
  "blocked st = (up_waiting st \<noteq> None \<or> list_ex awaited (up_running st))"

text \<open>
  One step of \<^verbatim>\<open>walkDirectory\<close> after the queue is built; \<open>Inl\<close> is the end of the run.
  While the loop is not held up it pushes the next file, and no answer is looked at: the
  loop gives way to other work only at an \<^verbatim>\<open>await\<close>. Otherwise the loop awaits a job or
  \<^verbatim>\<open>q.drained()\<close>. Jobs whose promise is rejected already settle first. Then, when
  nothing runs, the queue is drained and \<^verbatim>\<open>walkDirectory\<close> returns (a queue in which a
  file waits and nothing runs never starts it). Else the store answers one of the
  outstanding puts: an acknowledgement settles the job with its key; an error of a
  first put goes to the handler of \<^verbatim>\<open>uploadToS3\<close>, which fails or sends the put once
  more through the new client; an error of a second put fails the job.
\<close>

definition step :: "Platform \<Rightarrow> (string \<Rightarrow> Started) \<Rightarrow> Number \<Rightarrow> Uploads \<Rightarrow> Walk + Uploads" where
  "step pf s3uploader concurrency st =
     (if \<not> blocked st \<and> up_todo st \<noteq> [] then
        (if fastq_starts (length (up_running st)) concurrency then
           (case launch s3uploader False (hd (up_todo st)) (st\<lparr>up_todo := tl (up_todo st)\<rparr>) of
              Inl e \<Rightarrow> Inl (ended st (Thrown e))
            | Inr st' \<Rightarrow> Inr st')
         else Inr (st\<lparr>up_todo := tl (up_todo st), up_waiting := Some (hd (up_todo st))\<rparr>))
      else
        (case rejection (up_running st) of
           Some (e, jobs) \<Rightarrow> Inl (failed s3uploader (st\<lparr>up_running := jobs\<rparr>) e)
         | None \<Rightarrow>
             if up_running st = [] then
               Inl (ended st (if up_waiting st = None then Returned (up_keys st) else Pending))
             else
               (let i = s3_answers pf (up_answers st) mod length (up_running st);
                    st' = st\<lparr>up_running := take i (up_running st) @ drop (Suc i) (up_running st),
                             up_answers := Suc (up_answers st)\<rparr>
                in
                  case up_running st ! i of
                    Rejected a e \<Rightarrow> Inl (failed s3uploader st' e)
                  | Put a retry client params \<Rightarrow>
                      (case s3_putObject pf client params of
                         None \<Rightarrow>
                           (case release s3uploader (st'\<lparr>up_keys := up_keys st' @ [Key params]\<rparr>) of
                              Inl e \<Rightarrow> Inl (ended st' (Thrown e))
                            | Inr st'' \<Rightarrow> Inr st'')
                       | Some err \<Rightarrow>
                           if retry then Inl (failed s3uploader st' (ServiceError err))
                           else
                             (case uploadToS3_catch pf err of
                                (regions, Inl e) \<Rightarrow> Inl (failed s3uploader st' e)
                              | (regions, Inr client') \<Rightarrow>
                                  Inr (st'\<lparr>up_client := client',
                                           up_running := up_running st' @ [Put a True client' params],
                                           up_sent := up_sent st' @ [(client', params)]\<rparr>))))))"

text \<open>
  Every step that does not end the run takes a file from the list, starts the file that
  waits, settles a job or turns a first put into a second one: \<open>weight\<close> decreases.
\<close>

fun job_weight :: "Job \<Rightarrow> nat" where
  "job_weight (Put a retry client params) = (if retry then 1 else 2)"
| "job_weight (Rejected a e) = 1"

definition weight :: "Uploads \<Rightarrow> nat" where
  "weight st =
     4 * length (up_todo st) + (case up_waiting st of None \<Rightarrow> 0 | Some f \<Rightarrow> 3)
     + sum_list (map job_weight (up_running st))"

text \<open>
  \<^verbatim>\<open>walkDirectory\<close> after the queue is built: the loop over the files and the wait for
  the queue to drain.
\<close>

function uploads :: "Platform \<Rightarrow> (string \<Rightarrow> Started) \<Rightarrow> Number \<Rightarrow> Uploads \<Rightarrow> Walk" where
  "uploads pf s3uploader concurrency st =
     (case step pf s3uploader concurrency st of
        Inl w \<Rightarrow> w
      | Inr st' \<Rightarrow> uploads pf s3uploader concurrency st')"
  by pat_completeness auto

termination
proof (relation "measure (\<lambda>(pf, s3uploader, concurrency, st). weight st)")
  show "wf (measure (\<lambda>(pf, s3uploader, concurrency, st). weight st))"
    by simp
next
  fix pf :: Platform and s3uploader :: "string \<Rightarrow> Started" and concurrency :: Number
    and st st' :: Uploads
  assume s: "step pf s3uploader concurrency st = Inr st'"
  have launched: "weight u' \<le> weight u + 2"
    if "launch s3uploader a f u = Inr u'" for a f u u'
    using that by (auto simp add: launch_def weight_def split: Started.splits)
  have released: "weight u' \<le> weight u"
    if "release s3uploader u = Inr u'" for u u'
  proof (cases "up_waiting u")
    case None
    with that show ?thesis by (simp add: release_def)
  next
    case (Some f)
    with that have "launch s3uploader True f (u\<lparr>up_waiting := None\<rparr>) = Inr u'"
      by (simp add: release_def)
    from launched [OF this] Some show ?thesis by (simp add: weight_def)
  qed
  have removed: "sum_list (map job_weight (take i jobs @ drop (Suc i) jobs)) + job_weight (jobs ! i)
      = sum_list (map job_weight jobs)" if "i < length jobs" for i jobs
  proof -
    have "jobs = take i jobs @ jobs ! i # drop (Suc i) jobs"
      using that by (rule id_take_nth_drop)
    then have "sum_list (map job_weight jobs) =
        sum_list (map job_weight (take i jobs @ jobs ! i # drop (Suc i) jobs))"
      by simp
    then show ?thesis by simp
  qed
  have "weight st' < weight st"
  proof (cases "\<not> blocked st \<and> up_todo st \<noteq> []")
    case True
    then obtain f fs where todo: "up_todo st = f # fs" by (cases "up_todo st") auto
    from True have w: "up_waiting st = None" by (simp add: blocked_def)
    show ?thesis
    proof (cases "fastq_starts (length (up_running st)) concurrency")
      case starts: True
      with s True todo have "launch s3uploader False f (st\<lparr>up_todo := fs\<rparr>) = Inr st'"
        by (simp add: step_def split: sum.splits)
      from launched [OF this] todo show ?thesis by (simp add: weight_def)
    next
      case False
      with s True todo have "st' = st\<lparr>up_todo := fs, up_waiting := Some f\<rparr>"
        by (simp add: step_def)
      with todo w show ?thesis by (simp add: weight_def)
    qed
  next
    case False
    let ?i = "s3_answers pf (up_answers st) mod length (up_running st)"
    let ?u = "st\<lparr>up_running := take ?i (up_running st) @ drop (Suc ?i) (up_running st),
                 up_answers := Suc (up_answers st)\<rparr>"
    from s False have r: "rejection (up_running st) = None" and ne: "up_running st \<noteq> []"
      by (auto simp add: step_def split: option.splits if_splits)
    from ne have i: "?i < length (up_running st)" by simp
    from removed [OF i]
    have u: "weight ?u + job_weight (up_running st ! ?i) = weight st"
      by (simp add: weight_def)
    show ?thesis
    proof (cases "up_running st ! ?i")
      case (Rejected a e)
      with s False r ne show ?thesis by (simp add: step_def Let_def)
    next
      case (Put a retry client params)
      show ?thesis
      proof (cases "s3_putObject pf client params")
        case None
        with s False r ne Put
        have "release s3uploader (?u\<lparr>up_keys := up_keys ?u @ [Key params]\<rparr>) = Inr st'"
          by (simp add: step_def Let_def split: sum.splits)
        from released [OF this] have "weight st' \<le> weight ?u" by (simp add: weight_def)
        with u Put show ?thesis by (simp split: if_splits)
      next
        case (Some err)
        with s False r ne Put obtain regions client' where
          "retry = False" and
          "st' = ?u\<lparr>up_client := client',
                     up_running := up_running ?u @ [Put a True client' params],
                     up_sent := up_sent ?u @ [(client', params)]\<rparr>"
          by (auto simp add: step_def Let_def split: if_splits prod.splits sum.splits)
        with u Put show ?thesis by (simp add: weight_def)
      qed
    qed
  qed
  then show "((pf, s3uploader, concurrency, st'), (pf, s3uploader, concurrency, st))
      \<in> measure (\<lambda>(pf, s3uploader, concurrency, st). weight st)"
    by simp
qed

declare uploads.simps [simp del]

text \<open>
  \<^verbatim>\<open>walkDirectory\<close>: list the files, build the queue, push every file, wait for the queue
  to drain.
\<close>

definition walkDirectory ::
  "Platform \<Rightarrow> string \<Rightarrow> (string \<Rightarrow> Started) \<Rightarrow> Number \<Rightarrow> S3Client \<Rightarrow> Walk" where
  "walkDirectory pf directoryPath s3uploader concurrency client =
     (case fs_tree pf directoryPath of
        None \<Rightarrow> \<lparr>w_client = client, w_sends = [], w_outcome = Thrown FileSystemError\<rparr>
      | Some entries \<Rightarrow>
          (case buildFileList directoryPath entries [] of
             Inl e \<Rightarrow> \<lparr>w_client = client, w_sends = [], w_outcome = Thrown e\<rparr>
           | Inr filePathsToUpload \<Rightarrow>
               if \<not> fastq_accepts concurrency then
                 \<lparr>w_client = client, w_sends = [], w_outcome = Thrown QueueError\<rparr>
               else
                 uploads pf s3uploader concurrency
                   \<lparr>up_todo = filePathsToUpload, up_waiting = None, up_running = [],
                    up_client = client, up_sent = [], up_keys = [], up_answers = 0\<rparr>))"

subsection \<open>The bucket reconciler\<close>

text \<open>
  The inner loop of \<^verbatim>\<open>removeOldFiles\<close>: the keys of one page that are pushed to the
  deletion queue. \<^verbatim>\<open>obj.Key &&\<close> skips an object without a key, and one whose key is
  the empty string.
\<close>

fun pushOldFiles :: "string list \<Rightarrow> string \<Rightarrow> S3Object list \<Rightarrow> string list" where
  "pushOldFiles uploadedKeys prefix [] = []"
| "pushOldFiles uploadedKeys prefix (obj # objs) =
     (case Key_obj obj of
        None \<Rightarrow> pushOldFiles uploadedKeys prefix objs
      | Some k \<Rightarrow>
          if k \<noteq> '''' \<and> startsWith k prefix \<and> k \<notin> set uploadedKeys
          then k # pushOldFiles uploadedKeys prefix objs
          else pushOldFiles uploadedKeys prefix objs)"

text \<open>
  The jobs of the deletion queue for one page, run in the order they were pushed. An
  acknowledged delete is logged and counted (\<^verbatim>\<open>deleted++\<close>): \<open>removed\<close> lists the keys
  logged so far, and the counter is its length. A failed delete rejects the promise of
  its push, which the source rethrows.
\<close>

fun runDeletes ::
  "(string \<Rightarrow> S3Error option) \<Rightarrow> string list \<Rightarrow> string list \<Rightarrow> string list \<times> Failure option" where
  "runDeletes deleteKey [] removed = (removed, None)"
| "runDeletes deleteKey (k # ks) removed =
     (case deleteKey k of
        None \<Rightarrow> runDeletes deleteKey ks (removed @ [k])
      | Some err \<Rightarrow> (removed, Some (ServiceError err)))"

text \<open>
  What a reconciliation did: the keys it pushed to the deletion queue, the keys whose
  deletion was acknowledged, and how it ended (on return, with the counter).
\<close>

record Reconciliation =
  pushed :: "string list"
  removed_keys :: "string list"
  r_outcome :: "nat Outcome"

text \<open>
  The loop over the pages: push the old files of the page, then wait for the queue to
  drain. \<open>pushedSoFar\<close> collects the keys pushed to the queue. A queue that starts no
  item even when none is running would leave the keys waiting.
\<close>

fun removePages ::
  "(string \<Rightarrow> S3Error option) \<Rightarrow> string list \<Rightarrow> string \<Rightarrow> Number
     \<Rightarrow> (S3Error + ListPage) list \<Rightarrow> string list \<Rightarrow> string list \<Rightarrow> Reconciliation" where
  "removePages deleteKey uploadedKeys prefix concurrency [] pushedSoFar removed =
     \<lparr>pushed = pushedSoFar, removed_keys = removed, r_outcome = Returned (length removed)\<rparr>"
| "removePages deleteKey uploadedKeys prefix concurrency (Inl err # pages) pushedSoFar removed =
     \<lparr>pushed = pushedSoFar, removed_keys = removed, r_outcome = Thrown (ServiceError err)\<rparr>"
| "removePages deleteKey uploadedKeys prefix concurrency (Inr page # pages) pushedSoFar removed =
     (let ks = pushOldFiles uploadedKeys prefix
                 (case Contents page of None \<Rightarrow> [] | Some objs \<Rightarrow> objs)
      in
        if ks \<noteq> [] \<and> \<not> fastq_starts 0 concurrency then
          \<lparr>pushed = pushedSoFar @ ks, removed_keys = removed, r_outcome = Pending\<rparr>
        else
          (case runDeletes deleteKey ks removed of
             (removed', Some e) \<Rightarrow>
               \<lparr>pushed = pushedSoFar @ ks, removed_keys = removed', r_outcome = Thrown e\<rparr>
           | (removed', None) \<Rightarrow>
               removePages deleteKey uploadedKeys prefix concurrency pages
                 (pushedSoFar @ ks) removed'))"

definition removeOldFiles ::
  "Platform \<Rightarrow> S3Client \<Rightarrow> string \<Rightarrow> string list \<Rightarrow> string \<Rightarrow> Number \<Rightarrow> Reconciliation" where
  "removeOldFiles pf client bucket uploadedKeys prefix concurrency =
     (if \<not> fastq_accepts concurrency then
        \<lparr>pushed = [], removed_keys = [], r_outcome = Thrown QueueError\<rparr>
      else
        removePages (s3_deleteObject pf client bucket) uploadedKeys prefix concurrency
          (s3_listObjectsV2 pf client bucket prefix) [] [])"

text \<open>The keys of a listing, page after page: those of the objects that carry one.\<close>

fun objectKeys :: "S3Object list \<Rightarrow> string list" where
  "objectKeys [] = []"
| "objectKeys (obj # objs) =
     (case Key_obj obj of None \<Rightarrow> objectKeys objs | Some k \<Rightarrow> k # objectKeys objs)"

definition listedKeys :: "ListPage list \<Rightarrow> string list" where
  "listedKeys listing =
     concat (map (\<lambda>page. objectKeys (case Contents page of None \<Rightarrow> [] | Some objs \<Rightarrow> objs))
               listing)"

subsection \<open>The orchestrator's configuration\<close>

text \<open>
  \<^verbatim>\<open>if (!options.prefix) options.prefix = ""; else options.prefix =
  options.prefix.endsWith("/") ? options.prefix : `${options.prefix}/`\<close>.
  Both \<^verbatim>\<open>undefined\<close> and the empty string are falsy.
\<close>

definition s3SpaUpload_prefix :: "Options \<Rightarrow> string" where
  "s3SpaUpload_prefix options =
     (case prefix_opt options of
        None \<Rightarrow> ''''
      | Some p \<Rightarrow>
          if p = '''' then ''''
          else if endsWith p ''/'' then p else p @ ''/'')"

text \<open>\<^verbatim>\<open>options.concurrency ??= 100\<close>.\<close>

definition s3SpaUpload_concurrency :: "Options \<Rightarrow> Number" where
  "s3SpaUpload_concurrency options =
     (case concurrency_opt options of None \<Rightarrow> Finite 100 | Some c \<Rightarrow> c)"

subsection \<open>The orchestrator\<close>

text \<open>
  \<^verbatim>\<open>s3SpaUpload\<close>: resolve the directory, default the concurrency, make a client,
  normalise the prefix, upload, and reconcile when \<^verbatim>\<open>options.delete\<close> is truthy. A run
  is described by the puts it sent, the keys it pushed to the deletion queue, the keys
  whose deletion was acknowledged, and how it ended: on return, with the uploaded keys
  and, when deletion was asked for, the number of deleted objects that the summary
  prints.
\<close>

record Run =
  puts :: "(S3Client \<times> PutObjectParams) list"
  deletions :: "string list"
  removals :: "string list"
  outcome :: "(string list \<times> nat option) Outcome"

text \<open>
  \<^verbatim>\<open>filePath.replace(new RegExp(String.raw`^${dir}/?`), "")\<close>: the key of a file is
  its path without the first match of the pattern. The directory is put into the
  pattern as it is, so the characters of its name that are regular-expression syntax
  act as such.
\<close>

definition relativeKey :: "Platform \<Rightarrow> string \<Rightarrow> string \<Rightarrow> Failure + string" where
  "relativeKey pf dir filePath =
     (let pattern = ''^'' @ dir @ ''/?'' in
        if beyondParser pattern then RegExp_replace pf pattern filePath
        else
          (case parseRegExp pattern of
             None \<Rightarrow> Inl SyntaxError
           | Some re \<Rightarrow> Inr (replaceWithEmpty re filePath)))"

text \<open>
  The uploader that \<^verbatim>\<open>s3SpaUpload\<close> hands to \<^verbatim>\<open>walkDirectory\<close>, up to the put. The
  key is computed before \<^verbatim>\<open>uploadToS3\<close> is called, so an error of \<^verbatim>\<open>new RegExp\<close> is
  thrown by the uploader itself.
\<close>

definition s3uploader ::
  "Platform \<Rightarrow> string \<Rightarrow> string \<Rightarrow> string \<Rightarrow> CacheControlMapping option
     \<Rightarrow> string \<Rightarrow> Started" where
  "s3uploader pf bucket dir prefix cacheControlMapping filePath =
     (case relativeKey pf dir filePath of
        Inl e \<Rightarrow> Throws e
      | Inr key \<Rightarrow>
          (case uploadToS3_params pf bucket key filePath (Some prefix) cacheControlMapping of
             Inl e \<Rightarrow> Rejects e
           | Inr params \<Rightarrow> Sends params))"

text \<open>The first half of \<^verbatim>\<open>s3SpaUpload\<close>, up to the end of \<^verbatim>\<open>walkDirectory\<close>.\<close>

definition uploadPhase :: "Platform \<Rightarrow> string \<Rightarrow> string \<Rightarrow> Options \<Rightarrow> Walk" where
  "uploadPhase pf dir bucket options =
     (let dir' = resolve (os_cwd pf) dir;
          concurrency = s3SpaUpload_concurrency options;
          prefix = s3SpaUpload_prefix options
      in
        walkDirectory pf dir'
          (s3uploader pf bucket dir' prefix (cacheControlMapping_opt options))
          concurrency \<lparr>region = None\<rparr>)"

definition s3SpaUpload :: "Platform \<Rightarrow> string \<Rightarrow> string \<Rightarrow> Options \<Rightarrow> Run" where
  "s3SpaUpload pf dir bucket options =
     (let w = uploadPhase pf dir bucket options in
        case w_outcome w of
          Thrown e \<Rightarrow>
            \<lparr>puts = w_sends w, deletions = [], removals = [], outcome = Thrown e\<rparr>
        | Pending \<Rightarrow>
            \<lparr>puts = w_sends w, deletions = [], removals = [], outcome = Pending\<rparr>
        | Returned uploaded \<Rightarrow>
            if delete_opt options = Some True then
              (let r = removeOldFiles pf (w_client w) bucket uploaded
                         (s3SpaUpload_prefix options) (s3SpaUpload_concurrency options)
               in
                 \<lparr>puts = w_sends w, deletions = pushed r, removals = removed_keys r,
                  outcome =
                    (case r_outcome r of
                       Returned nrDeleted \<Rightarrow> Returned (uploaded, Some nrDeleted)
                     | Thrown e \<Rightarrow> Thrown e
                     | Pending \<Rightarrow> Pending)\<rparr>)
            else
              \<lparr>puts = w_sends w, deletions = [], removals = [],
               outcome = Returned (uploaded, None)\<rparr>)"

subsection \<open>The command line\<close>

text \<open>
  \<^verbatim>\<open>main\<close> of the command-line wrapper, as far as the options go: the concurrency
  defaults to 100, and the check
  \<^verbatim>\<open>if (args.c !== undefined && args.c < 1) throw new Error(...)\<close> runs before the core is
  called.
\<close>

definition main ::
  "Platform \<Rightarrow> string \<Rightarrow> string \<Rightarrow> bool option \<Rightarrow> CacheControlMapping option
     \<Rightarrow> string option \<Rightarrow> Number option \<Rightarrow> Run" where
  "main pf directory bucketname d m p c =
     (let concurrency = (case c of None \<Rightarrow> Finite 100 | Some n \<Rightarrow> n) in
        if number_lt concurrency (Finite 1) then
          \<lparr>puts = [], deletions = [], removals = [], outcome = Thrown UsageError\<rparr>
        else
          s3SpaUpload pf directory bucketname
            \<lparr>delete_opt = d, cacheControlMapping_opt = m, prefix_opt = p,
             concurrency_opt = Some concurrency\<rparr>)"

subsection \<open>The work queue, step by step\<close>

text \<open>
  Modelled from the spec: the bounded work queue (the package \<^verbatim>\<open>fastq\<close>, which the
  repository imports and does not contain). The spec asks for a queue that accepts
  items one at a time, has at most \<open>N\<close> calls of the worker outstanding, and can be
  waited on until all submitted items have completed. The queue below starts a pushed
  item at once when fewer than \<open>N\<close> are running and lets it wait otherwise; when a
  running item completes, the item that has waited longest is started.
\<close>

record Queue =
  running :: "string list"
  waiting :: "string list"

definition q_empty :: Queue where
  "q_empty = \<lparr>running = [], waiting = []\<rparr>"

definition q_push :: "int \<Rightarrow> string \<Rightarrow> Queue \<Rightarrow> Queue" where
  "q_push N x q =
     (if int (length (running q)) < N then q\<lparr>running := running q @ [x]\<rparr>
      else q\<lparr>waiting := waiting q @ [x]\<rparr>)"

definition q_release :: "string \<Rightarrow> Queue \<Rightarrow> Queue" where
  "q_release x q =
     (case waiting q of
        [] \<Rightarrow> q\<lparr>running := remove1 x (running q)\<rparr>
      | y # ys \<Rightarrow> \<lparr>running = remove1 x (running q) @ [y], waiting = ys\<rparr>)"

definition q_length :: "Queue \<Rightarrow> nat" where
  "q_length q = length (waiting q)"

definition q_idle :: "Queue \<Rightarrow> bool" where
  "q_idle q = (running q = [] \<and> waiting q = [])"

text \<open>
  The loop of \<^verbatim>\<open>walkDirectory\<close> over that queue, one step at a time. After a push the
  loop awaits the pushed item when the queue has a backlog
  (\<^verbatim>\<open>if (q.length() > 0) await p\<close>); after the last push it awaits \<^verbatim>\<open>q.drained()\<close>. Any
  running upload may complete at any time, with a key or with an error; an error is
  rethrown and ends the run.
\<close>

datatype WalkPc = Looping | Awaiting string | WalkDraining | WalkDone | WalkCrashed

record WalkState =
  ws_todo :: "string list"
  ws_pc :: WalkPc
  ws_queue :: Queue
  ws_keys :: "string list"

definition walkInit :: "string list \<Rightarrow> WalkState" where
  "walkInit filePathsToUpload =
     \<lparr>ws_todo = filePathsToUpload, ws_pc = Looping, ws_queue = q_empty, ws_keys = []\<rparr>"

inductive walkStep :: "int \<Rightarrow> WalkState \<Rightarrow> WalkState \<Rightarrow> bool" for N :: int where
  push:
    "ws_pc s = Looping \<Longrightarrow> ws_todo s = filePath # rest \<Longrightarrow>
     q' = q_push N filePath (ws_queue s) \<Longrightarrow>
     walkStep N s
       (s\<lparr>ws_todo := rest, ws_queue := q',
          ws_pc := (if q_length q' > 0 then Awaiting filePath else Looping)\<rparr>)"
| uploaded:
    "filePath \<in> set (running (ws_queue s)) \<Longrightarrow> ws_pc s \<noteq> WalkCrashed \<Longrightarrow>
     walkStep N s
       (s\<lparr>ws_queue := q_release filePath (ws_queue s), ws_keys := ws_keys s @ [key],
          ws_pc := (if ws_pc s = Awaiting filePath then Looping else ws_pc s)\<rparr>)"
| failed:
    "filePath \<in> set (running (ws_queue s)) \<Longrightarrow> ws_pc s \<noteq> WalkCrashed \<Longrightarrow>
     walkStep N s (s\<lparr>ws_pc := WalkCrashed\<rparr>)"
| pushed_all:
    "ws_pc s = Looping \<Longrightarrow> ws_todo s = [] \<Longrightarrow> walkStep N s (s\<lparr>ws_pc := WalkDraining\<rparr>)"
| drained:
    "ws_pc s = WalkDraining \<Longrightarrow> q_idle (ws_queue s) \<Longrightarrow> walkStep N s (s\<lparr>ws_pc := WalkDone\<rparr>)"

inductive walkReachable :: "int \<Rightarrow> string list \<Rightarrow> WalkState \<Rightarrow> bool"
  for N :: int and filePathsToUpload :: "string list" where
  init: "walkReachable N filePathsToUpload (walkInit filePathsToUpload)"
| step: "walkReachable N filePathsToUpload s \<Longrightarrow> walkStep N s s' \<Longrightarrow>
         walkReachable N filePathsToUpload s'"

text \<open>
  The loop of \<^verbatim>\<open>removeOldFiles\<close> over that queue, one step at a time. While a page is
  being fetched the loop waits for the paginator; when the page arrives its old files
  are pushed in one go (the inner loop awaits nothing) and the loop awaits
  \<^verbatim>\<open>q.drained()\<close>; only then does \<^verbatim>\<open>for await\<close> ask for the next page. Any running
  delete may complete at any time, acknowledged or failed. \<open>rs_pushed\<close> records the
  keys pushed so far, \<open>rs_deleted\<close> is the counter \<^verbatim>\<open>deleted\<close>.
\<close>

datatype ReconPc = Fetching | ReconDraining | ReconDone | ReconCrashed

record ReconState =
  rs_pages :: "ListPage list"
  rs_pc :: ReconPc
  rs_queue :: Queue
  rs_pushed :: "string list"
  rs_deleted :: nat

definition reconInit :: "ListPage list \<Rightarrow> ReconState" where
  "reconInit listing =
     \<lparr>rs_pages = listing, rs_pc = Fetching, rs_queue = q_empty, rs_pushed = [],
      rs_deleted = 0\<rparr>"

definition pushAll :: "int \<Rightarrow> string list \<Rightarrow> Queue \<Rightarrow> Queue" where
  "pushAll N ks q = foldl (\<lambda>q k. q_push N k q) q ks"

inductive reconStep :: "int \<Rightarrow> string list \<Rightarrow> string \<Rightarrow> ReconState \<Rightarrow> ReconState \<Rightarrow> bool"
  for N :: int and uploadedKeys :: "string list" and prefix :: string where
  page:
    "rs_pc s = Fetching \<Longrightarrow> rs_pages s = pg # rest \<Longrightarrow>
     ks = pushOldFiles uploadedKeys prefix (case Contents pg of None \<Rightarrow> [] | Some objs \<Rightarrow> objs) \<Longrightarrow>
     reconStep N uploadedKeys prefix s
       (s\<lparr>rs_pages := rest, rs_queue := pushAll N ks (rs_queue s),
          rs_pushed := rs_pushed s @ ks, rs_pc := ReconDraining\<rparr>)"
| listed_all:
    "rs_pc s = Fetching \<Longrightarrow> rs_pages s = [] \<Longrightarrow>
     reconStep N uploadedKeys prefix s (s\<lparr>rs_pc := ReconDone\<rparr>)"
| listing_failed:
    "rs_pc s = Fetching \<Longrightarrow> reconStep N uploadedKeys prefix s (s\<lparr>rs_pc := ReconCrashed\<rparr>)"
| deleted:
    "k \<in> set (running (rs_queue s)) \<Longrightarrow> rs_pc s \<noteq> ReconCrashed \<Longrightarrow>
     reconStep N uploadedKeys prefix s
       (s\<lparr>rs_queue := q_release k (rs_queue s), rs_deleted := rs_deleted s + 1\<rparr>)"
| delete_failed:
    "k \<in> set (running (rs_queue s)) \<Longrightarrow> rs_pc s \<noteq> ReconCrashed \<Longrightarrow>
     reconStep N uploadedKeys prefix s (s\<lparr>rs_pc := ReconCrashed\<rparr>)"
| drained:
    "rs_pc s = ReconDraining \<Longrightarrow> q_idle (rs_queue s) \<Longrightarrow>
     reconStep N uploadedKeys prefix s (s\<lparr>rs_pc := Fetching\<rparr>)"

inductive reconReachable :: "int \<Rightarrow> string list \<Rightarrow> string \<Rightarrow> ListPage list \<Rightarrow> ReconState \<Rightarrow> bool"
  for N :: int and uploadedKeys :: "string list" and prefix :: string
    and listing :: "ListPage list" where
  init: "reconReachable N uploadedKeys prefix listing (reconInit listing)"
| step: "reconReachable N uploadedKeys prefix listing s \<Longrightarrow>
         reconStep N uploadedKeys prefix s s' \<Longrightarrow>
         reconReachable N uploadedKeys prefix listing s'"


text \<open>The number of items the queue holds, and the invariant of the reconciling loop.\<close>

definition q_size :: "Queue \<Rightarrow> nat" where
  "q_size q = length (running q) + length (waiting q)"

definition reconInv :: "ReconState \<Rightarrow> bool" where
  "reconInv s =
     (rs_pc s = ReconCrashed \<or>
      (rs_deleted s + q_size (rs_queue s) = length (rs_pushed s) \<and>
       (rs_pc s = ReconDraining \<or> q_idle (rs_queue s))))"


text \<open>
  The condition under which \<^verbatim>\<open>removeOldFiles\<close> pushes a key: it is not empty, it starts
  with the prefix, and it was not uploaded.
\<close>

definition oldFile :: "string list \<Rightarrow> string \<Rightarrow> string \<Rightarrow> bool" where
  "oldFile uploadedKeys prefix k =
     (k \<noteq> '''' \<and> startsWith k prefix \<and> k \<notin> set uploadedKeys)"

subsection \<open>A platform for the examples\<close>

text \<open>
  A working directory \<^verbatim>\<open>/home/ci\<close> with the site under \<^verbatim>\<open>root\<close>, and an object store
  that acknowledges everything, answers the puts in the order they were sent and lists
  three objects on two pages. The constructor of the storage client refuses the empty
  region, as the SDK does (\<^verbatim>\<open>Region is missing\<close>). The patterns of the examples are all
  within the parser, so the engine for the other patterns is never asked.
\<close>

definition demoTree :: "Entry list" where
  "demoTree = [File ''index.html'', Directory ''sub'' [Directory ''dir'' [File ''app.js'']]]"

definition demoListing :: "ListPage list" where
  "demoListing =
     [\<lparr>Contents = Some [\<lparr>Key_obj = Some ''mobile/old.txt''\<rparr>,
                        \<lparr>Key_obj = Some ''mobile/sub/dir/app.js''\<rparr>]\<rparr>,
      \<lparr>Contents = Some [\<lparr>Key_obj = Some ''web/logo.png''\<rparr>]\<rparr>]"

definition demoPlatform :: Platform where
  "demoPlatform =
     \<lparr>os_cwd = ''/home/ci'',
      fs_tree = (\<lambda>d. if d = ''/home/ci/root'' then Some demoTree else None),
      fs_readFile = (\<lambda>p. Some ''...''),
      mime_contentType = (\<lambda>p. None),
      glob_minimatch = globMatchBase,
      RegExp_replace = (\<lambda>pattern s. Inl SyntaxError),
      S3Client_accepts = (\<lambda>r. r \<noteq> ''''),
      s3_putObject = (\<lambda>client params. None),
      s3_deleteObject = (\<lambda>client bucket k. None),
      s3_listObjectsV2 = (\<lambda>client bucket prefix. map Inr demoListing),
      s3_answers = (\<lambda>n. 0)\<rparr>"

text \<open>
  An object store whose bucket lives in the region \<open>home\<close>: a put through a client of
  any other region is answered with a permanent redirect that names \<open>endpoint\<close>.
\<close>

definition regionalStore :: "string \<Rightarrow> string \<Rightarrow> S3Client \<Rightarrow> PutObjectParams \<Rightarrow> S3Error option" where
  "regionalStore home endpoint client params =
     (if region client = Some home then None
      else Some (S3Error (Some ''PermanentRedirect'') (Some endpoint)))"

text \<open>
  The same site in a working directory whose name holds a \<^verbatim>\<open>+\<close>, and with the one
  file \<^verbatim>\<open>sub/dir/app.js\<close>.
\<close>

definition plusPlatform :: Platform where
  "plusPlatform =
     demoPlatform
       \<lparr>os_cwd := ''/home/ci/a+b'',
        fs_tree := (\<lambda>d. if d = ''/home/ci/a+b/root''
                          then Some [Directory ''sub'' [Directory ''dir'' [File ''app.js'']]]
                          else None)\<rparr>"


section \<open>Properties\<close>

subsection \<open>Strings\<close>

lemma startsWith_iff: "startsWith s p \<longleftrightarrow> (\<exists>r. s = p @ r)"
  by (induction s p rule: startsWith.induct) auto

lemma endsWith_iff: "endsWith s p \<longleftrightarrow> (\<exists>r. s = r @ p)"
proof -
  have "endsWith s p \<longleftrightarrow> (\<exists>r. rev s = rev p @ r)"
    by (simp add: endsWith_def startsWith_iff)
  also have "\<dots> \<longleftrightarrow> (\<exists>r. s = r @ p)"
  proof
    assume "\<exists>r. rev s = rev p @ r"
    then obtain r where "rev s = rev p @ r" ..
    then have "s = rev r @ p" by (metis rev_append rev_rev_ident)
    then show "\<exists>r. s = r @ p" ..
  next
    assume "\<exists>r. s = r @ p"
    then obtain r where "s = r @ p" ..
    then have "rev s = rev p @ rev r" by simp
    then show "\<exists>r. rev s = rev p @ r" ..
  qed
  finally show ?thesis .
qed

lemma endsWith_slash: "endsWith s ''/'' \<longleftrightarrow> s \<noteq> [] \<and> last s = CHR ''/''"
proof (cases s rule: rev_cases)
  case Nil
  then show ?thesis by (simp add: endsWith_def)
next
  case (snoc ys y)
  then show ?thesis by (auto simp add: endsWith_def)
qed

lemma trailingSeparators_snoc:
  "trailingSeparators (s @ [c]) = (if c = CHR ''/'' then Suc (trailingSeparators s) else 0)"
  by (simp add: trailingSeparators_def)

lemma trailingSeparators_pos: "endsWith s ''/'' \<Longrightarrow> 1 \<le> trailingSeparators s"
  by (cases s rule: rev_cases) (auto simp add: endsWith_slash trailingSeparators_snoc)

lemma trailingSeparators_zero: "\<not> endsWith s ''/'' \<Longrightarrow> trailingSeparators s = 0"
  by (cases s rule: rev_cases)
    (auto simp add: endsWith_slash trailingSeparators_snoc trailingSeparators_def)

subsection \<open>Prefix normalisation\<close>

lemma s3SpaUpload_prefix_falsy:
  "prefix_opt options = None \<or> prefix_opt options = Some '''' \<Longrightarrow> s3SpaUpload_prefix options = ''''"
  by (auto simp add: s3SpaUpload_prefix_def)

lemma s3SpaUpload_prefix_truthy:
  "prefix_opt options = Some p \<Longrightarrow> p \<noteq> '''' \<Longrightarrow>
   s3SpaUpload_prefix options = (if endsWith p ''/'' then p else p @ ''/'')"
  by (simp add: s3SpaUpload_prefix_def)

text \<open>
  C3, as the code has it. An absent or empty prefix becomes the empty string. A non-empty
  prefix is kept when it ends in \<^verbatim>\<open>/\<close> and gets one \<^verbatim>\<open>/\<close> appended otherwise, so the
  result always ends in \<^verbatim>\<open>/\<close>; it ends in as many separators as the prefix did, and in
  exactly one when the prefix ended in none or one.
\<close>

theorem s3SpaUpload_prefix_normalized:
  "(prefix_opt options = None \<or> prefix_opt options = Some '''' \<longrightarrow>
      s3SpaUpload_prefix options = '''') \<and>
   (prefix_opt options = Some p \<and> p \<noteq> '''' \<longrightarrow>
      s3SpaUpload_prefix options = (if endsWith p ''/'' then p else p @ ''/'') \<and>
      endsWith (s3SpaUpload_prefix options) ''/'' \<and>
      trailingSeparators (s3SpaUpload_prefix options) = max 1 (trailingSeparators p))"
proof (intro conjI impI)
  assume "prefix_opt options = None \<or> prefix_opt options = Some ''''"
  then show "s3SpaUpload_prefix options = ''''"
    by (rule s3SpaUpload_prefix_falsy)
next
  assume a: "prefix_opt options = Some p \<and> p \<noteq> ''''"
  then show r: "s3SpaUpload_prefix options = (if endsWith p ''/'' then p else p @ ''/'')"
    by (simp add: s3SpaUpload_prefix_truthy)
  show "endsWith (s3SpaUpload_prefix options) ''/''"
    unfolding r by (simp add: endsWith_slash)
  show "trailingSeparators (s3SpaUpload_prefix options) = max 1 (trailingSeparators p)"
  proof (cases "endsWith p ''/''")
    case True
    with trailingSeparators_pos [of p] show ?thesis
      unfolding r by simp
  next
    case False
    with trailingSeparators_zero [of p] show ?thesis
      unfolding r by (simp add: trailingSeparators_snoc)
  qed
qed

theorem s3SpaUpload_prefix_normalized_witness:
  "s3SpaUpload_prefix
     \<lparr>delete_opt = None, cacheControlMapping_opt = None, prefix_opt = Some ''mobile'',
      concurrency_opt = None\<rparr> = ''mobile/'' \<and>
   trailingSeparators
     (s3SpaUpload_prefix
        \<lparr>delete_opt = None, cacheControlMapping_opt = None, prefix_opt = Some ''mobile'',
         concurrency_opt = None\<rparr>) = 1"
  using s3SpaUpload_prefix_normalized
    [of "\<lparr>delete_opt = None, cacheControlMapping_opt = None, prefix_opt = Some ''mobile'',
          concurrency_opt = None\<rparr>" "''mobile''"]
  by (simp add: endsWith_def trailingSeparators_def)

text \<open>
  C3 as stated fails: a prefix that ends in two separators is kept as it is, and the
  result ends in two separators, not in exactly one.
\<close>

theorem s3SpaUpload_prefix_two_separators:
  "s3SpaUpload_prefix
     \<lparr>delete_opt = None, cacheControlMapping_opt = None, prefix_opt = Some ''mobile//'',
      concurrency_opt = None\<rparr> = ''mobile//'' \<and>
   trailingSeparators
     (s3SpaUpload_prefix
        \<lparr>delete_opt = None, cacheControlMapping_opt = None, prefix_opt = Some ''mobile//'',
         concurrency_opt = None\<rparr>) = 2"
  by (simp add: s3SpaUpload_prefix_def endsWith_def trailingSeparators_def)

subsection \<open>The work queue\<close>

lemma q_push_running:
  "0 \<le> N \<Longrightarrow> int (length (running q)) \<le> N \<Longrightarrow> int (length (running (q_push N x q))) \<le> N"
  by (simp add: q_push_def)

lemma q_release_running:
  "x \<in> set (running q) \<Longrightarrow> length (running (q_release x q)) \<le> length (running q)"
  using length_pos_if_in_set [of x "running q"]
  by (cases "waiting q") (auto simp add: q_release_def length_remove1)

lemma q_push_size: "q_size (q_push N x q) = Suc (q_size q)"
  by (simp add: q_push_def q_size_def)

lemma pushAll_size: "q_size (pushAll N ks q) = q_size q + length ks"
  unfolding pushAll_def
  by (induction ks arbitrary: q) (simp_all add: q_push_size)

lemma q_release_size: "x \<in> set (running q) \<Longrightarrow> Suc (q_size (q_release x q)) = q_size q"
  using length_pos_if_in_set [of x "running q"]
  by (cases "waiting q") (auto simp add: q_release_def q_size_def length_remove1)

lemma q_idle_size: "q_idle q \<longleftrightarrow> q_size q = 0"
  by (auto simp add: q_idle_def q_size_def)

lemma q_push_never_starts:
  "N < 1 \<Longrightarrow> running q = [] \<Longrightarrow> running (q_push N x q) = []"
  by (simp add: q_push_def)

lemma walkStep_never_starts:
  assumes "walkStep N s s'" and "N < 1" and "running (ws_queue s) = []"
  shows "running (ws_queue s') = []"
  using assms by (induction rule: walkStep.induct) (simp_all add: q_push_never_starts)

lemma walkReachable_never_starts:
  assumes "walkReachable N filePathsToUpload s" and "N < 1"
  shows "running (ws_queue s) = []"
  using assms
proof (induction rule: walkReachable.induct)
  case init
  then show ?case by (simp add: walkInit_def q_empty_def)
next
  case (step s s')
  then show ?case using walkStep_never_starts by blast
qed


lemma walkStep_bound:
  assumes "walkStep N s s'" and "0 \<le> N" and "int (length (running (ws_queue s))) \<le> N"
  shows "int (length (running (ws_queue s'))) \<le> N"
  using assms
proof (induction rule: walkStep.induct)
  case (push s filePath rest q')
  then show ?case by (simp add: q_push_running)
next
  case (uploaded filePath s key)
  from q_release_running [OF uploaded(1)] uploaded(4) show ?case by simp
qed simp_all

text \<open>
  C8. Whatever files are submitted and in whatever order the uploads complete, in every
  state the loop of \<^verbatim>\<open>walkDirectory\<close> can reach with a concurrency \<open>N \<ge> 1\<close>, at most
  \<open>N\<close> calls of the worker are outstanding.
\<close>

theorem walkDirectory_outstanding_bound:
  assumes "walkReachable N filePathsToUpload s" and "1 \<le> N"
  shows "int (length (running (ws_queue s))) \<le> N"
  using assms
proof (induction rule: walkReachable.induct)
  case init
  then show ?case by (simp add: walkInit_def q_empty_def)
next
  case (step s s')
  then show ?case using walkStep_bound [of N s s'] by simp
qed

theorem walkDirectory_outstanding_bound_witness:
  "walkReachable 1 [''/site/a.js'', ''/site/b.js'']
     \<lparr>ws_todo = [], ws_pc = Awaiting ''/site/b.js'',
      ws_queue = \<lparr>running = [''/site/a.js''], waiting = [''/site/b.js'']\<rparr>, ws_keys = []\<rparr> \<and>
   int (length (running (ws_queue
     \<lparr>ws_todo = [], ws_pc = Awaiting ''/site/b.js'',
      ws_queue = \<lparr>running = [''/site/a.js''], waiting = [''/site/b.js'']\<rparr>, ws_keys = []\<rparr>))) \<le> 1"
proof -
  let ?s0 = "walkInit [''/site/a.js'', ''/site/b.js'']"
  let ?s1 = "\<lparr>ws_todo = [''/site/b.js''], ws_pc = Looping,
      ws_queue = \<lparr>running = [''/site/a.js''], waiting = []\<rparr>, ws_keys = []\<rparr>"
  let ?s2 = "\<lparr>ws_todo = [], ws_pc = Awaiting ''/site/b.js'',
      ws_queue = \<lparr>running = [''/site/a.js''], waiting = [''/site/b.js'']\<rparr>, ws_keys = []\<rparr>"
  have "walkStep 1 ?s0 ?s1"
    using walkStep.push [of ?s0 "''/site/a.js''" "[''/site/b.js'']" _ 1]
    by (simp add: walkInit_def q_empty_def q_push_def q_length_def)
  then have r1: "walkReachable 1 [''/site/a.js'', ''/site/b.js''] ?s1"
    using walkReachable.init walkReachable.step by blast
  have "walkStep 1 ?s1 ?s2"
    using walkStep.push [of ?s1 "''/site/b.js''" "[]" _ 1]
    by (simp add: q_push_def q_length_def)
  with r1 have r2: "walkReachable 1 [''/site/a.js'', ''/site/b.js''] ?s2"
    using walkReachable.step by blast
  from walkDirectory_outstanding_bound [OF r2] r2 show ?thesis by simp
qed

lemma reconStep_inv:
  assumes "reconStep N uploadedKeys prefix s s'" and "reconInv s"
  shows "reconInv s'"
  using assms
proof (induction rule: reconStep.induct)
  case (page s pg rest ks)
  then show ?case by (auto simp add: reconInv_def pushAll_size q_idle_size)
next
  case (deleted k s)
  with q_release_size [OF deleted(1)] show ?case
    by (auto simp add: reconInv_def q_idle_def)
qed (auto simp add: reconInv_def)

lemma reconReachable_inv:
  assumes "reconReachable N uploadedKeys prefix listing s"
  shows "reconInv s"
  using assms
proof (induction rule: reconReachable.induct)
  case init
  then show ?case by (simp add: reconInv_def reconInit_def q_idle_def q_empty_def q_size_def)
next
  case (step s s')
  then show ?case using reconStep_inv by blast
qed

text \<open>
  C9. Whenever the loop of \<^verbatim>\<open>removeOldFiles\<close> is fetching a page of the listing, the
  deletion queue is idle (nothing running, nothing waiting) and every key pushed for the
  earlier pages has been deleted: the fetch of a page never overlaps a deletion.
\<close>

theorem removeOldFiles_drained_before_next_page:
  assumes "reconReachable N uploadedKeys prefix listing s" and "rs_pc s = Fetching"
  shows "q_idle (rs_queue s) \<and> rs_deleted s = length (rs_pushed s)"
  using reconReachable_inv [OF assms(1)] assms(2)
  by (auto simp add: reconInv_def q_idle_size)

theorem removeOldFiles_drained_before_next_page_witness:
  "reconReachable 1 [''app.js''] ''''
     [\<lparr>Contents = Some [\<lparr>Key_obj = Some ''old.txt''\<rparr>, \<lparr>Key_obj = Some ''app.js''\<rparr>]\<rparr>,
      \<lparr>Contents = None\<rparr>]
     \<lparr>rs_pages = [\<lparr>Contents = None\<rparr>], rs_pc = Fetching, rs_queue = q_empty,
      rs_pushed = [''old.txt''], rs_deleted = 1\<rparr> \<and>
   q_idle (rs_queue
     \<lparr>rs_pages = [\<lparr>Contents = None\<rparr>], rs_pc = Fetching, rs_queue = q_empty,
      rs_pushed = [''old.txt''], rs_deleted = 1\<rparr>) \<and>
   rs_deleted
     \<lparr>rs_pages = [\<lparr>Contents = None\<rparr>], rs_pc = Fetching, rs_queue = q_empty,
      rs_pushed = [''old.txt''], rs_deleted = 1\<rparr> = 1"
proof -
  let ?pg = "\<lparr>Contents = Some [\<lparr>Key_obj = Some ''old.txt''\<rparr>, \<lparr>Key_obj = Some ''app.js''\<rparr>]\<rparr>"
  let ?listing = "[?pg, \<lparr>Contents = None\<rparr>]"
  let ?s0 = "reconInit ?listing"
  let ?s1 = "\<lparr>rs_pages = [\<lparr>Contents = None\<rparr>], rs_pc = ReconDraining,
      rs_queue = \<lparr>running = [''old.txt''], waiting = []\<rparr>,
      rs_pushed = [''old.txt''], rs_deleted = 0\<rparr>"
  let ?s2 = "\<lparr>rs_pages = [\<lparr>Contents = None\<rparr>], rs_pc = ReconDraining,
      rs_queue = q_empty, rs_pushed = [''old.txt''], rs_deleted = 1\<rparr>"
  let ?s3 = "\<lparr>rs_pages = [\<lparr>Contents = None\<rparr>], rs_pc = Fetching,
      rs_queue = q_empty, rs_pushed = [''old.txt''], rs_deleted = 1\<rparr>"
  have "reconStep 1 [''app.js''] '''' ?s0 ?s1"
    using reconStep.page [of ?s0 ?pg "[\<lparr>Contents = None\<rparr>]" _ "[''app.js'']" "''''" 1]
    by (simp add: reconInit_def q_empty_def pushAll_def q_push_def)
  then have r1: "reconReachable 1 [''app.js''] '''' ?listing ?s1"
    using reconReachable.init reconReachable.step by blast
  have "reconStep 1 [''app.js''] '''' ?s1 ?s2"
    using reconStep.deleted [of "''old.txt''" ?s1 1 "[''app.js'']" "''''"]
    by (simp add: q_release_def q_empty_def)
  with r1 have r2: "reconReachable 1 [''app.js''] '''' ?listing ?s2"
    using reconReachable.step by blast
  have "reconStep 1 [''app.js''] '''' ?s2 ?s3"
    using reconStep.drained [of ?s2 1 "[''app.js'']" "''''"]
    by (simp add: q_idle_def q_empty_def)
  with r2 have r3: "reconReachable 1 [''app.js''] '''' ?listing ?s3"
    using reconReachable.step by blast
  from removeOldFiles_drained_before_next_page [OF r3] r3 show ?thesis by simp
qed


subsection \<open>Reconciliation\<close>

lemma pushOldFiles_filter:
  "pushOldFiles uploadedKeys prefix objs = filter (oldFile uploadedKeys prefix) (objectKeys objs)"
  by (induction objs) (auto simp add: oldFile_def split: option.splits)

lemma pushOldFiles_old:
  "set (pushOldFiles uploadedKeys prefix objs) \<subseteq> {k. oldFile uploadedKeys prefix k}"
  by (auto simp add: pushOldFiles_filter)

lemma runDeletes_acknowledged:
  "(\<forall>k. deleteKey k = None) \<Longrightarrow> runDeletes deleteKey ks removed = (removed @ ks, None)"
  by (induction ks arbitrary: removed) simp_all

lemma runDeletes_removed:
  "set (fst (runDeletes deleteKey ks removed)) \<subseteq> set removed \<union> set ks"
proof (induction ks arbitrary: removed)
  case Nil
  then show ?case by simp
next
  case (Cons k ks)
  show ?case
  proof (cases "deleteKey k")
    case None
    with Cons [of "removed @ [k]"] show ?thesis by auto
  next
    case (Some err)
    then show ?thesis by auto
  qed
qed

lemma removePages_pushed_subset:
  "set (pushed (removePages deleteKey uploadedKeys prefix concurrency pages pushedSoFar removed))
     \<subseteq> set pushedSoFar \<union> {k. oldFile uploadedKeys prefix k}"
proof (induction pages arbitrary: pushedSoFar removed)
  case Nil
  then show ?case by simp
next
  case (Cons pg pages)
  show ?case
  proof (cases pg)
    case (Inl err)
    then show ?thesis by simp
  next
    case (Inr page)
    let ?ks = "pushOldFiles uploadedKeys prefix (case Contents page of None \<Rightarrow> [] | Some objs \<Rightarrow> objs)"
    have ks: "set ?ks \<subseteq> {k. oldFile uploadedKeys prefix k}"
      by (rule pushOldFiles_old)
    obtain removed' failure where d: "runDeletes deleteKey ?ks removed = (removed', failure)"
      by (cases "runDeletes deleteKey ?ks removed")
    show ?thesis
    proof (cases "(?ks \<noteq> [] \<and> \<not> fastq_starts 0 concurrency) \<or> failure \<noteq> None")
      case True
      with Inr ks d show ?thesis by (auto simp add: Let_def)
    next
      case False
      from Cons.IH [of "pushedSoFar @ ?ks" removed'] ks
      have "set (pushed (removePages deleteKey uploadedKeys prefix concurrency pages
               (pushedSoFar @ ?ks) removed'))
              \<subseteq> set pushedSoFar \<union> {k. oldFile uploadedKeys prefix k}"
        by auto
      with Inr False d show ?thesis by (auto simp add: Let_def)
    qed
  qed
qed

lemma removePages_pushed_grows:
  "set pushedSoFar
     \<subseteq> set (pushed (removePages deleteKey uploadedKeys prefix concurrency pages pushedSoFar removed))"
proof (induction pages arbitrary: pushedSoFar removed)
  case Nil
  then show ?case by simp
next
  case (Cons pg pages)
  show ?case
  proof (cases pg)
    case (Inl err)
    then show ?thesis by simp
  next
    case (Inr page)
    let ?ks = "pushOldFiles uploadedKeys prefix (case Contents page of None \<Rightarrow> [] | Some objs \<Rightarrow> objs)"
    obtain removed' failure where d: "runDeletes deleteKey ?ks removed = (removed', failure)"
      by (cases "runDeletes deleteKey ?ks removed")
    show ?thesis
    proof (cases "(?ks \<noteq> [] \<and> \<not> fastq_starts 0 concurrency) \<or> failure \<noteq> None")
      case True
      with Inr d show ?thesis by (auto simp add: Let_def)
    next
      case False
      from Cons.IH [of "pushedSoFar @ ?ks" removed']
      have "set pushedSoFar
          \<subseteq> set (pushed (removePages deleteKey uploadedKeys prefix concurrency pages
                 (pushedSoFar @ ?ks) removed'))"
        by auto
      with Inr False d show ?thesis by (auto simp add: Let_def)
    qed
  qed
qed

lemma removePages_removed_subset:
  "set (removed_keys (removePages deleteKey uploadedKeys prefix concurrency pages pushedSoFar removed))
     \<subseteq> set removed
       \<union> set (pushed (removePages deleteKey uploadedKeys prefix concurrency pages pushedSoFar removed))"
proof (induction pages arbitrary: pushedSoFar removed)
  case Nil
  then show ?case by simp
next
  case (Cons pg pages)
  show ?case
  proof (cases pg)
    case (Inl err)
    then show ?thesis by simp
  next
    case (Inr page)
    let ?ks = "pushOldFiles uploadedKeys prefix (case Contents page of None \<Rightarrow> [] | Some objs \<Rightarrow> objs)"
    obtain removed' failure where d: "runDeletes deleteKey ?ks removed = (removed', failure)"
      by (cases "runDeletes deleteKey ?ks removed")
    with runDeletes_removed [of deleteKey ?ks removed]
    have r': "set removed' \<subseteq> set removed \<union> set ?ks"
      by simp
    show ?thesis
    proof (cases "(?ks \<noteq> [] \<and> \<not> fastq_starts 0 concurrency) \<or> failure \<noteq> None")
      case True
      with Inr d r' show ?thesis by (auto simp add: Let_def)
    next
      case False
      have p: "set (pushedSoFar @ ?ks)
          \<subseteq> set (pushed (removePages deleteKey uploadedKeys prefix concurrency pages
                 (pushedSoFar @ ?ks) removed'))"
        by (rule removePages_pushed_grows)
      from Cons.IH [of "pushedSoFar @ ?ks" removed'] r' p
      have "set (removed_keys (removePages deleteKey uploadedKeys prefix concurrency pages
               (pushedSoFar @ ?ks) removed'))
          \<subseteq> set removed
            \<union> set (pushed (removePages deleteKey uploadedKeys prefix concurrency pages
                 (pushedSoFar @ ?ks) removed'))"
        by auto
      with Inr False d show ?thesis by (auto simp add: Let_def)
    qed
  qed
qed

lemma fastq_accepts_starts: "fastq_accepts concurrency \<Longrightarrow> fastq_starts 0 concurrency"
  by (cases concurrency) (auto simp add: fastq_accepts_def fastq_starts_def number_ge_def)

lemma removePages_acknowledged:
  assumes "\<forall>k. deleteKey k = None" and "fastq_accepts concurrency"
  shows "removePages deleteKey uploadedKeys prefix concurrency (map Inr listing) pushedSoFar removed =
     \<lparr>pushed = pushedSoFar @ filter (oldFile uploadedKeys prefix) (listedKeys listing),
      removed_keys = removed @ filter (oldFile uploadedKeys prefix) (listedKeys listing),
      r_outcome = Returned
        (length removed + length (filter (oldFile uploadedKeys prefix) (listedKeys listing)))\<rparr>"
  using assms
proof (induction listing arbitrary: pushedSoFar removed)
  case Nil
  then show ?case by (simp add: listedKeys_def)
next
  case (Cons page listing)
  then show ?case
    by (simp add: Let_def runDeletes_acknowledged pushOldFiles_filter listedKeys_def
        fastq_accepts_starts)
qed

lemma removeOldFiles_pushed_old:
  "set (pushed (removeOldFiles pf client bucket uploadedKeys prefix concurrency))
     \<subseteq> {k. oldFile uploadedKeys prefix k}"
  using removePages_pushed_subset
    [of "s3_deleteObject pf client bucket" uploadedKeys prefix concurrency
        "s3_listObjectsV2 pf client bucket prefix" "[]" "[]"]
  by (simp add: removeOldFiles_def)

lemma removeOldFiles_removed_pushed:
  "set (removed_keys (removeOldFiles pf client bucket uploadedKeys prefix concurrency))
     \<subseteq> set (pushed (removeOldFiles pf client bucket uploadedKeys prefix concurrency))"
  using removePages_removed_subset
    [of "s3_deleteObject pf client bucket" uploadedKeys prefix concurrency
        "s3_listObjectsV2 pf client bucket prefix" "[]" "[]"]
  by (simp add: removeOldFiles_def)

lemma removeOldFiles_acknowledged:
  assumes "s3_listObjectsV2 pf client bucket prefix = map Inr listing"
    and "\<forall>k. s3_deleteObject pf client bucket k = None"
    and "fastq_accepts concurrency"
  shows "removeOldFiles pf client bucket uploadedKeys prefix concurrency =
     \<lparr>pushed = filter (oldFile uploadedKeys prefix) (listedKeys listing),
      removed_keys = filter (oldFile uploadedKeys prefix) (listedKeys listing),
      r_outcome = Returned (length (filter (oldFile uploadedKeys prefix) (listedKeys listing)))\<rparr>"
  using assms removePages_acknowledged
    [of "s3_deleteObject pf client bucket" concurrency uploadedKeys prefix listing "[]" "[]"]
  by (simp add: removeOldFiles_def)

lemma filter_oldFile_nonempty:
  "'''' \<notin> set ks \<Longrightarrow>
   filter (oldFile uploadedKeys prefix) ks =
     filter (\<lambda>k. startsWith k prefix \<and> k \<notin> set uploadedKeys) ks"
  by (induction ks) (auto simp add: oldFile_def)

text \<open>
  C1. No key of the uploaded set is ever pushed for deletion, and only pushed keys are
  deleted, whatever the listing, its pages and the outcome of the run. When the
  paginator delivers the listing (in whatever pages; object-store keys are never empty),
  the queue is built with a concurrency of at least 1 and every delete is acknowledged,
  the reconciler deletes exactly the listed keys that start with the prefix and are not
  in the uploaded set, and returns how many.
\<close>

theorem removeOldFiles_deletes_exactly:
  "set (pushed (removeOldFiles pf client bucket uploadedKeys prefix concurrency))
     \<inter> set uploadedKeys = {} \<and>
   set (removed_keys (removeOldFiles pf client bucket uploadedKeys prefix concurrency))
     \<inter> set uploadedKeys = {} \<and>
   (s3_listObjectsV2 pf client bucket prefix = map Inr listing \<and>
    listedKeys listing = keys \<and> '''' \<notin> set keys \<and>
    (\<forall>k. s3_deleteObject pf client bucket k = None) \<and>
    number_ge concurrency (Finite 1) \<longrightarrow>
      removed_keys (removeOldFiles pf client bucket uploadedKeys prefix concurrency) =
        filter (\<lambda>k. startsWith k prefix \<and> k \<notin> set uploadedKeys) keys \<and>
      r_outcome (removeOldFiles pf client bucket uploadedKeys prefix concurrency) =
        Returned (length (filter (\<lambda>k. startsWith k prefix \<and> k \<notin> set uploadedKeys) keys)))"
proof (intro conjI impI)
  show p: "set (pushed (removeOldFiles pf client bucket uploadedKeys prefix concurrency))
          \<inter> set uploadedKeys = {}"
    using removeOldFiles_pushed_old [of pf client bucket uploadedKeys prefix concurrency]
    by (auto simp add: oldFile_def)
  show "set (removed_keys (removeOldFiles pf client bucket uploadedKeys prefix concurrency))
          \<inter> set uploadedKeys = {}"
    using p removeOldFiles_removed_pushed [of pf client bucket uploadedKeys prefix concurrency]
    by auto
next
  assume a: "s3_listObjectsV2 pf client bucket prefix = map Inr listing \<and>
    listedKeys listing = keys \<and> '''' \<notin> set keys \<and>
    (\<forall>k. s3_deleteObject pf client bucket k = None) \<and>
    number_ge concurrency (Finite 1)"
  then have r: "removeOldFiles pf client bucket uploadedKeys prefix concurrency =
     \<lparr>pushed = filter (oldFile uploadedKeys prefix) keys,
      removed_keys = filter (oldFile uploadedKeys prefix) keys,
      r_outcome = Returned (length (filter (oldFile uploadedKeys prefix) keys))\<rparr>"
    using removeOldFiles_acknowledged [of pf client bucket prefix listing concurrency uploadedKeys]
    by (simp add: fastq_accepts_def)
  from a have f: "filter (oldFile uploadedKeys prefix) keys =
      filter (\<lambda>k. startsWith k prefix \<and> k \<notin> set uploadedKeys) keys"
    by (simp add: filter_oldFile_nonempty)
  show "removed_keys (removeOldFiles pf client bucket uploadedKeys prefix concurrency) =
      filter (\<lambda>k. startsWith k prefix \<and> k \<notin> set uploadedKeys) keys"
    by (simp add: r f)
  show "r_outcome (removeOldFiles pf client bucket uploadedKeys prefix concurrency) =
      Returned (length (filter (\<lambda>k. startsWith k prefix \<and> k \<notin> set uploadedKeys) keys))"
    by (simp add: r f)
qed

theorem removeOldFiles_deletes_exactly_witness:
  "removed_keys (removeOldFiles demoPlatform \<lparr>region = None\<rparr> ''bucket''
      [''mobile/index.html'', ''mobile/sub/dir/app.js''] ''mobile/'' (Finite 100)) = [''mobile/old.txt'']
   \<and> r_outcome (removeOldFiles demoPlatform \<lparr>region = None\<rparr> ''bucket''
      [''mobile/index.html'', ''mobile/sub/dir/app.js''] ''mobile/'' (Finite 100)) = Returned 1"
  using removeOldFiles_deletes_exactly
    [of demoPlatform "\<lparr>region = None\<rparr>" "''bucket''"
        "[''mobile/index.html'', ''mobile/sub/dir/app.js'']" "''mobile/''" "Finite 100" demoListing
        "[''mobile/old.txt'', ''mobile/sub/dir/app.js'', ''web/logo.png'']"]
  by (simp add: demoPlatform_def demoListing_def listedKeys_def fastq_accepts_def number_ge_def)


subsection \<open>An empty prefix\<close>

text \<open>
  C10. When the prefix option is absent or the empty string and deletion is asked for,
  the reconciler is called with the prefix \<open>''''\<close>: the listing is requested for that
  prefix and \<^verbatim>\<open>startsWith\<close> holds for every key, so every listed key that is not in the
  uploaded set is pushed for deletion, and deleted (object-store keys are never empty;
  the listing is delivered, the queue is built with a concurrency of at least 1 and
  every delete is acknowledged).
\<close>

theorem s3SpaUpload_empty_prefix_whole_bucket:
  assumes "prefix_opt options = None \<or> prefix_opt options = Some ''''"
    and "delete_opt options = Some True"
    and "w_outcome (uploadPhase pf dir bucket options) = Returned uploaded"
    and "s3_listObjectsV2 pf (w_client (uploadPhase pf dir bucket options)) bucket '''' =
           map Inr listing"
    and "'''' \<notin> set (listedKeys listing)"
    and "\<forall>k. s3_deleteObject pf (w_client (uploadPhase pf dir bucket options)) bucket k = None"
    and "number_ge (s3SpaUpload_concurrency options) (Finite 1)"
  shows "s3SpaUpload_prefix options = '''' \<and>
    deletions (s3SpaUpload pf dir bucket options) =
      filter (\<lambda>k. k \<notin> set uploaded) (listedKeys listing) \<and>
    removals (s3SpaUpload pf dir bucket options) =
      filter (\<lambda>k. k \<notin> set uploaded) (listedKeys listing) \<and>
    outcome (s3SpaUpload pf dir bucket options) =
      Returned (uploaded, Some (length (filter (\<lambda>k. k \<notin> set uploaded) (listedKeys listing))))"
proof -
  let ?w = "uploadPhase pf dir bucket options"
  have p: "s3SpaUpload_prefix options = ''''"
    using assms(1) by (rule s3SpaUpload_prefix_falsy)
  have r: "removeOldFiles pf (w_client ?w) bucket uploaded '''' (s3SpaUpload_concurrency options) =
     \<lparr>pushed = filter (oldFile uploaded '''') (listedKeys listing),
      removed_keys = filter (oldFile uploaded '''') (listedKeys listing),
      r_outcome = Returned (length (filter (oldFile uploaded '''') (listedKeys listing)))\<rparr>"
    using assms(4,6,7) by (simp add: removeOldFiles_acknowledged fastq_accepts_def)
  have f: "filter (oldFile uploaded '''') (listedKeys listing) =
      filter (\<lambda>k. k \<notin> set uploaded) (listedKeys listing)"
    using assms(5) by (simp add: filter_oldFile_nonempty)
  show ?thesis
    using assms(2,3) by (simp add: s3SpaUpload_def p r f Let_def)
qed

lemma demo_files:
  "buildFileList ''/home/ci/root'' demoTree [] =
     Inr [''/home/ci/root/index.html'', ''/home/ci/root/sub/dir/app.js'']"
  by (simp add: demoTree_def joinPath_def endsWith_def)

lemma demo_uploadPhase:
  "w_outcome (uploadPhase demoPlatform ''root'' ''bucket''
     \<lparr>delete_opt = Some True, cacheControlMapping_opt = None, prefix_opt = None,
      concurrency_opt = None\<rparr>) = Returned [''index.html'', ''sub/dir/app.js''] \<and>
   w_client (uploadPhase demoPlatform ''root'' ''bucket''
     \<lparr>delete_opt = Some True, cacheControlMapping_opt = None, prefix_opt = None,
      concurrency_opt = None\<rparr>) = \<lparr>region = None\<rparr>"
  by (simp add: uploadPhase_def demoPlatform_def resolve_def joinPath_def endsWith_def
      walkDirectory_def demo_files s3SpaUpload_concurrency_def s3SpaUpload_prefix_def
      s3uploader_def uploadToS3_params_def Let_def putObjectParams_def
      relativeKey_def beyondParser_def parseRegExp_def putOut_def quantify_def replaceWithEmpty_def
      fastq_accepts_def fastq_starts_def number_ge_def
      uploads.simps step_def blocked_def launch_def release_def ended_def)

theorem s3SpaUpload_empty_prefix_whole_bucket_witness:
  "deletions (s3SpaUpload demoPlatform ''root'' ''bucket''
     \<lparr>delete_opt = Some True, cacheControlMapping_opt = None, prefix_opt = None,
      concurrency_opt = None\<rparr>)
   = [''mobile/old.txt'', ''mobile/sub/dir/app.js'', ''web/logo.png'']"
  using s3SpaUpload_empty_prefix_whole_bucket
    [of "\<lparr>delete_opt = Some True, cacheControlMapping_opt = None, prefix_opt = None,
          concurrency_opt = None\<rparr>"
        demoPlatform "''root''" "''bucket''" "[''index.html'', ''sub/dir/app.js'']" demoListing]
    demo_uploadPhase
  by (simp add: demoPlatform_def demoListing_def listedKeys_def s3SpaUpload_concurrency_def
      fastq_accepts_def number_ge_def)


subsection \<open>A run on a single file\<close>

lemma uploads_goes: "step pf uploader concurrency st = Inr st' \<Longrightarrow>
    uploads pf uploader concurrency st = uploads pf uploader concurrency st'"
  by (subst uploads.simps) simp

lemma uploads_ends: "step pf uploader concurrency st = Inl w \<Longrightarrow>
    uploads pf uploader concurrency st = w"
  by (subst uploads.simps) simp

text \<open>
  When the directory holds one file, \<^verbatim>\<open>walkDirectory\<close> is one call of
  \<^verbatim>\<open>uploadToS3\<close> that nothing interleaves with: the same puts through the same
  clients, the same client left behind, and the key or the error of that call.
\<close>

lemma uploads_single_file:
  assumes key: "relativeKey pf dir filePath = Inr key" and acc: "fastq_accepts concurrency"
  shows "uploads pf (s3uploader pf bucket dir prefix m) concurrency
           \<lparr>up_todo = [filePath], up_waiting = None, up_running = [],
            up_client = client, up_sent = [], up_keys = [], up_answers = 0\<rparr> =
         \<lparr>w_client = s3client (uploadToS3 pf client bucket key filePath (Some prefix) m),
          w_sends = sends (uploadToS3 pf client bucket key filePath (Some prefix) m),
          w_outcome =
            (case result (uploadToS3 pf client bucket key filePath (Some prefix) m) of
               Inl e \<Rightarrow> Thrown e
             | Inr k \<Rightarrow> Returned [k])\<rparr>"
proof -
  let ?up = "s3uploader pf bucket dir prefix m"
  let ?s0 = "\<lparr>up_todo = [filePath], up_waiting = None, up_running = [],
              up_client = client, up_sent = [], up_keys = [], up_answers = 0\<rparr>"
  note starts = fastq_accepts_starts [OF acc]
  show ?thesis
  proof (cases "uploadToS3_params pf bucket key filePath (Some prefix) m")
    case (Inl e)
    let ?s1 = "\<lparr>up_todo = [], up_waiting = None, up_running = [Rejected False e],
                up_client = client, up_sent = [], up_keys = [], up_answers = 0\<rparr>"
    have "step pf ?up concurrency ?s0 = Inr ?s1"
      using key Inl starts by (simp add: step_def blocked_def launch_def s3uploader_def)
    moreover have "step pf ?up concurrency ?s1 =
        Inl \<lparr>w_client = client, w_sends = [], w_outcome = Thrown e\<rparr>"
      by (simp add: step_def blocked_def failed_def release_def ended_def)
    ultimately show ?thesis
      using Inl by (simp add: uploads_goes uploads_ends uploadToS3_def)
  next
    case (Inr params)
    let ?s1 = "\<lparr>up_todo = [], up_waiting = None, up_running = [Put False False client params],
                up_client = client, up_sent = [(client, params)], up_keys = [],
                up_answers = 0\<rparr>"
    have 0: "step pf ?up concurrency ?s0 = Inr ?s1"
      using key Inr starts by (simp add: step_def blocked_def launch_def s3uploader_def)
    show ?thesis
    proof (cases "s3_putObject pf client params")
      case None
      let ?s2 = "\<lparr>up_todo = [], up_waiting = None, up_running = [],
                  up_client = client, up_sent = [(client, params)], up_keys = [Key params],
                  up_answers = Suc 0\<rparr>"
      have "step pf ?up concurrency ?s1 = Inr ?s2"
        using None by (simp add: step_def blocked_def release_def Let_def)
      moreover have "step pf ?up concurrency ?s2 =
          Inl \<lparr>w_client = client, w_sends = [(client, params)],
               w_outcome = Returned [Key params]\<rparr>"
        by (simp add: step_def blocked_def ended_def)
      ultimately show ?thesis
        using 0 Inr None by (simp add: uploads_goes uploads_ends uploadToS3_def)
    next
      case (Some err)
      obtain regions r where c: "uploadToS3_catch pf err = (regions, r)"
        by (cases "uploadToS3_catch pf err")
      show ?thesis
      proof (cases r)
        case (Inl e)
        have "step pf ?up concurrency ?s1 =
            Inl \<lparr>w_client = client, w_sends = [(client, params)], w_outcome = Thrown e\<rparr>"
          using Some c Inl
          by (simp add: step_def blocked_def failed_def release_def ended_def Let_def)
        then show ?thesis
          using 0 Inr Some c Inl by (simp add: uploads_goes uploads_ends uploadToS3_def)
      next
        case client': (Inr client')
        let ?s2 = "\<lparr>up_todo = [], up_waiting = None,
                    up_running = [Put False True client' params],
                    up_client = client', up_sent = [(client, params), (client', params)],
                    up_keys = [], up_answers = Suc 0\<rparr>"
        have 1: "step pf ?up concurrency ?s1 = Inr ?s2"
          using Some c client' by (simp add: step_def blocked_def Let_def)
        show ?thesis
        proof (cases "s3_putObject pf client' params")
          case None
          let ?s3 = "\<lparr>up_todo = [], up_waiting = None, up_running = [],
                      up_client = client', up_sent = [(client, params), (client', params)],
                      up_keys = [Key params], up_answers = Suc (Suc 0)\<rparr>"
          have "step pf ?up concurrency ?s2 = Inr ?s3"
            using None by (simp add: step_def blocked_def release_def Let_def)
          moreover have "step pf ?up concurrency ?s3 =
              Inl \<lparr>w_client = client', w_sends = [(client, params), (client', params)],
                   w_outcome = Returned [Key params]\<rparr>"
            by (simp add: step_def blocked_def ended_def)
          ultimately show ?thesis
            using 0 1 Inr Some c client' None
            by (simp add: uploads_goes uploads_ends uploadToS3_def)
        next
          case second: (Some err')
          have "step pf ?up concurrency ?s2 =
              Inl \<lparr>w_client = client', w_sends = [(client, params), (client', params)],
                   w_outcome = Thrown (ServiceError err')\<rparr>"
            using second
            by (simp add: step_def blocked_def failed_def release_def ended_def Let_def)
          then show ?thesis
            using 0 1 Inr Some c client' second
            by (simp add: uploads_goes uploads_ends uploadToS3_def)
        qed
      qed
    qed
  qed
qed


subsection \<open>Key derivation\<close>

text \<open>
  The pattern of a directory without syntax characters is within the parser, and is
  parsed character by character.
\<close>

lemma plainDir_within_parser: "plainDir d \<Longrightarrow> \<not> beyondParser (''^'' @ d @ ''/?'')"
  by (induction d) (auto simp add: plainDir_def beyondParser_def isSyntaxCharacter_def)

lemma parseTerms_plain:
  "plainDir d \<Longrightarrow>
   parseTerms p (d @ ''/?'') = Some (flush p @ map dirToken d @ [Opt (Lit (CHR ''/''))])"
proof (induction d arbitrary: p)
  case Nil
  then show ?case by (simp add: putOut_def quantify_def)
next
  case (Cons c d)
  from Cons.prems have c: "\<not> isSyntaxCharacter c" and d: "plainDir d"
    by (simp_all add: plainDir_def)
  from c have "c \<notin> set ''*+?''" "c \<noteq> CHR ''^''" "c \<noteq> CHR ''$''"
    by (auto simp add: isSyntaxCharacter_def)
  with Cons.IH [OF d, of "Atom (if c = CHR ''.'' then AnyChar else Lit c)"]
  show ?case by (simp add: putOut_def dirToken_def)
qed

lemma parseRegExp_plain: "plainDir d \<Longrightarrow> parseRegExp (''^'' @ d @ ''/?'') = Some (dirRegExp d)"
  using parseTerms_plain [of d NoAtom]
  by (simp add: parseRegExp_def dirRegExp_def putOut_def)

lemma dirToken_accepts: "\<exists>cl. dirToken c = One cl \<and> accepts cl c"
  by (simp add: dirToken_def)

lemma matchHere_dir:
  "matchHere (map dirToken d @ ts) (d @ s) start NotEntered =
     matchHere ts s (start \<and> d = []) NotEntered"
proof (induction d arbitrary: start)
  case Nil
  then show ?case by simp
next
  case (Cons c d)
  from dirToken_accepts [of c] obtain cl where cl: "dirToken c = One cl" "accepts cl c" by blast
  with Cons [of False] show ?case by simp
qed

lemma regexSearch_here:
  "matchHere ts s True NotEntered = Some (rest, cap) \<Longrightarrow> regexSearch ts [] s = Some ([], rest, cap)"
  by (cases s) simp_all

lemma replace_dir_slash:
  "replaceWithEmpty (dirRegExp d) (d @ CHR ''/'' # rel) = rel"
proof -
  have "matchHere (dirRegExp d) (d @ CHR ''/'' # rel) True NotEntered = Some (rel, NotEntered)"
    using matchHere_dir [of d "[Opt (Lit (CHR ''/''))]" "CHR ''/'' # rel" True]
    by (simp add: dirRegExp_def)
  then show ?thesis
    by (simp add: replaceWithEmpty_def regexSearch_here)
qed

lemma relativeKey_under_dir:
  "plainDir d \<Longrightarrow> relativeKey pf d (d @ CHR ''/'' # rel) = Inr rel"
  by (simp add: relativeKey_def plainDir_within_parser parseRegExp_plain replace_dir_slash
      del: append.simps)

lemma joinPath_no_slash: "\<not> endsWith d ''/'' \<Longrightarrow> joinPath d e = d @ CHR ''/'' # e"
  by (simp add: joinPath_def)

lemma resolve_root:
  "resolve cwd ''root'' = (if endsWith cwd ''/'' then cwd @ ''root'' else cwd @ ''/root'')"
  by (simp add: resolve_def joinPath_def)

lemma plainDir_resolve_root: "plainDir cwd \<Longrightarrow> plainDir (resolve cwd ''root'')"
  by (simp add: resolve_root plainDir_def isSyntaxCharacter_def)

lemma resolve_root_no_slash: "\<not> endsWith (resolve cwd ''root'') ''/''"
  by (simp add: resolve_root endsWith_slash)

lemma buildFileList_example:
  assumes "\<not> endsWith d ''/''"
  shows "buildFileList d [Directory ''sub'' [Directory ''dir'' [File ''app.js'']]] [] =
     Inr [d @ ''/sub/dir/app.js'']"
proof -
  have 1: "joinPath d ''sub'' = d @ ''/sub''"
    using assms by (simp add: joinPath_no_slash)
  have 2: "joinPath (d @ ''/sub'') ''dir'' = d @ ''/sub/dir''"
    by (simp add: joinPath_def endsWith_slash)
  have 3: "joinPath (d @ ''/sub/dir'') ''app.js'' = d @ ''/sub/dir/app.js''"
    by (simp add: joinPath_def endsWith_slash)
  show ?thesis by (simp add: 1 2 3)
qed

text \<open>
  The run of \<^verbatim>\<open>walkDirectory\<close> on one file whose put is sent and acknowledged: one put,
  one key.
\<close>

lemma uploads_one_file:
  assumes "uploader filePath = Sends params"
    and "s3_putObject pf client params = None"
    and "fastq_accepts concurrency"
  shows "uploads pf uploader concurrency
           \<lparr>up_todo = [filePath], up_waiting = None, up_running = [],
            up_client = client, up_sent = [], up_keys = [], up_answers = 0\<rparr> =
         \<lparr>w_client = client, w_sends = [(client, params)], w_outcome = Returned [Key params]\<rparr>"
proof -
  let ?s0 = "\<lparr>up_todo = [filePath], up_waiting = None, up_running = [],
              up_client = client, up_sent = [], up_keys = [], up_answers = 0\<rparr>"
  let ?s1 = "\<lparr>up_todo = [], up_waiting = None, up_running = [Put False False client params],
              up_client = client, up_sent = [(client, params)], up_keys = [], up_answers = 0\<rparr>"
  let ?s2 = "\<lparr>up_todo = [], up_waiting = None, up_running = [],
              up_client = client, up_sent = [(client, params)], up_keys = [Key params],
              up_answers = Suc 0\<rparr>"
  have 0: "step pf uploader concurrency ?s0 = Inr ?s1"
    using assms(1) fastq_accepts_starts [OF assms(3)]
    by (simp add: step_def blocked_def launch_def)
  have 1: "step pf uploader concurrency ?s1 = Inr ?s2"
    using assms(2) by (simp add: step_def blocked_def release_def Let_def)
  have 2: "step pf uploader concurrency ?s2 =
      Inl \<lparr>w_client = client, w_sends = [(client, params)], w_outcome = Returned [Key params]\<rparr>"
    by (simp add: step_def blocked_def ended_def)
  have "uploads pf uploader concurrency ?s0 = uploads pf uploader concurrency ?s1"
    by (subst uploads.simps) (simp add: 0)
  also have "\<dots> = uploads pf uploader concurrency ?s2"
    by (subst uploads.simps) (simp add: 1)
  also have "\<dots> =
      \<lparr>w_client = client, w_sends = [(client, params)], w_outcome = Returned [Key params]\<rparr>"
    by (subst uploads.simps) (simp add: 2)
  finally show ?thesis .
qed

text \<open>
  Key derivation where the directory holds no regular-expression syntax. A run on the
  directory \<^verbatim>\<open>root\<close>, relative to a working directory without such syntax in its
  name, that holds the one file \<^verbatim>\<open>sub/dir/app.js\<close>, with the prefix option \<^verbatim>\<open>mobile\<close>
  and a store that acknowledges the put: the one put carries the key
  \<^verbatim>\<open>mobile/sub/dir/app.js\<close>, and that is the one key reported as uploaded.
\<close>

lemma uploadPhase_key_plain_directory:
  assumes "plainDir (os_cwd pf)"
    and "fs_tree pf (resolve (os_cwd pf) ''root'') =
           Some [Directory ''sub'' [Directory ''dir'' [File ''app.js'']]]"
    and "fs_readFile pf (resolve (os_cwd pf) ''root'' @ ''/sub/dir/app.js'') = Some body"
    and "prefix_opt options = Some ''mobile''"
    and "\<forall>params. s3_putObject pf \<lparr>region = None\<rparr> params = None"
    and "fastq_accepts (s3SpaUpload_concurrency options)"
  shows "map (\<lambda>cp. Key (snd cp)) (w_sends (uploadPhase pf ''root'' bucket options)) =
           [''mobile/sub/dir/app.js''] \<and>
         w_outcome (uploadPhase pf ''root'' bucket options) = Returned [''mobile/sub/dir/app.js'']"
proof -
  let ?d = "resolve (os_cwd pf) ''root''"
  let ?fp = "?d @ ''/sub/dir/app.js''"
  let ?m = "cacheControlMapping_opt options"
  let ?params = "putObjectParams pf bucket ''sub/dir/app.js'' ?fp (Some ''mobile/'') ?m body"
  have p: "s3SpaUpload_prefix options = ''mobile/''"
    using assms(4) by (simp add: s3SpaUpload_prefix_def endsWith_def)
  have files: "buildFileList ?d [Directory ''sub'' [Directory ''dir'' [File ''app.js'']]] [] = Inr [?fp]"
    by (rule buildFileList_example) (rule resolve_root_no_slash)
  have key: "relativeKey pf ?d ?fp = Inr ''sub/dir/app.js''"
    using relativeKey_under_dir [OF plainDir_resolve_root [OF assms(1)], of pf "''sub/dir/app.js''"]
    by simp
  have up: "s3uploader pf bucket ?d ''mobile/'' ?m ?fp = Sends ?params"
    using assms(3) by (simp add: s3uploader_def key uploadToS3_params_def)
  have ack: "s3_putObject pf \<lparr>region = None\<rparr> ?params = None"
    using assms(5) by simp
  have w: "uploadPhase pf ''root'' bucket options =
      \<lparr>w_client = \<lparr>region = None\<rparr>, w_sends = [(\<lparr>region = None\<rparr>, ?params)],
       w_outcome = Returned [Key ?params]\<rparr>"
    using assms(2,6)
      uploads_one_file
        [where uploader = "s3uploader pf bucket ?d ''mobile/'' ?m" and filePath = ?fp,
         OF up ack assms(6)]
    by (simp add: uploadPhase_def Let_def walkDirectory_def files p del: buildFileList.simps)
  show ?thesis
    by (simp add: w putObjectParams_def)
qed

lemma uploadPhase_key_plain_directory_example:
  "map (\<lambda>cp. Key (snd cp))
     (w_sends (uploadPhase
        (demoPlatform\<lparr>fs_tree := (\<lambda>d. if d = ''/home/ci/root''
            then Some [Directory ''sub'' [Directory ''dir'' [File ''app.js'']]] else None)\<rparr>)
        ''root'' ''bucket''
        \<lparr>delete_opt = None, cacheControlMapping_opt = None, prefix_opt = Some ''mobile'',
         concurrency_opt = None\<rparr>)) = [''mobile/sub/dir/app.js'']"
  using uploadPhase_key_plain_directory
    [of "demoPlatform\<lparr>fs_tree := (\<lambda>d. if d = ''/home/ci/root''
            then Some [Directory ''sub'' [Directory ''dir'' [File ''app.js'']]] else None)\<rparr>"
        "''...''"
        "\<lparr>delete_opt = None, cacheControlMapping_opt = None, prefix_opt = Some ''mobile'',
          concurrency_opt = None\<rparr>" "''bucket''"]
  by (simp add: demoPlatform_def plainDir_def isSyntaxCharacter_def resolve_root endsWith_def
      s3SpaUpload_concurrency_def fastq_accepts_def number_ge_def)

text \<open>
  What the constructor makes of a directory name with a \<^verbatim>\<open>+\<close> in it: the \<^verbatim>\<open>+\<close>
  repeats the character before it, so the pattern asks for \<^verbatim>\<open>a\<close>, once or more, and
  then \<^verbatim>\<open>b\<close>. The paths under the directory have a \<^verbatim>\<open>+\<close> between the two and do not
  match, and \<^verbatim>\<open>replace\<close> returns them as they are.
\<close>

lemma parseRegExp_plus:
  "parseRegExp ''^/home/ci/a+b/root/?'' =
     Some ([Bol] @ literal ''/home/ci/'' @ [Plus (Lit (CHR ''a''))] @ literal ''b/root''
           @ [Opt (Lit (CHR ''/''))])"
  by (simp add: parseRegExp_def putOut_def quantify_def literal_def)

lemma relativeKey_plus:
  "relativeKey pf ''/home/ci/a+b/root'' ''/home/ci/a+b/root/sub/dir/app.js'' =
     Inr ''/home/ci/a+b/root/sub/dir/app.js''"
  by (simp add: relativeKey_def beyondParser_def parseRegExp_plus literal_def
      replaceWithEmpty_def)

text \<open>
  C4 at an input on which the code departs from it. The working directory is
  \<^verbatim>\<open>/home/ci/a+b\<close>, the run is on \<^verbatim>\<open>root\<close>, which holds the one file
  \<^verbatim>\<open>sub/dir/app.js\<close>, and the prefix option is \<^verbatim>\<open>mobile\<close>. The directory is put into
  the pattern without escaping, the pattern does not match the path of the file, and
  the one put of the run carries the normalised prefix followed by the whole absolute
  path, not \<^verbatim>\<open>mobile/sub/dir/app.js\<close>; the run returns that key as the uploaded one.
\<close>

theorem s3SpaUpload_key_unescaped_directory:
  "resolve (os_cwd plusPlatform) ''root'' = ''/home/ci/a+b/root'' \<and>
   relativeKey plusPlatform ''/home/ci/a+b/root'' ''/home/ci/a+b/root/sub/dir/app.js'' =
     Inr ''/home/ci/a+b/root/sub/dir/app.js'' \<and>
   map (\<lambda>cp. Key (snd cp))
     (puts (s3SpaUpload plusPlatform ''root'' ''bucket''
        \<lparr>delete_opt = None, cacheControlMapping_opt = None, prefix_opt = Some ''mobile'',
         concurrency_opt = None\<rparr>)) = [''mobile//home/ci/a+b/root/sub/dir/app.js''] \<and>
   outcome (s3SpaUpload plusPlatform ''root'' ''bucket''
        \<lparr>delete_opt = None, cacheControlMapping_opt = None, prefix_opt = Some ''mobile'',
         concurrency_opt = None\<rparr>) =
     Returned ([''mobile//home/ci/a+b/root/sub/dir/app.js''], None)"
proof -
  let ?options = "\<lparr>delete_opt = None, cacheControlMapping_opt = None,
                   prefix_opt = Some ''mobile'', concurrency_opt = None\<rparr>"
  let ?fp = "''/home/ci/a+b/root/sub/dir/app.js''"
  let ?params = "putObjectParams plusPlatform ''bucket'' ?fp ?fp (Some ''mobile/'') None ''...''"
  have d: "resolve (os_cwd plusPlatform) ''root'' = ''/home/ci/a+b/root''"
    by (simp add: plusPlatform_def demoPlatform_def resolve_def joinPath_def endsWith_def)
  have files: "buildFileList ''/home/ci/a+b/root''
      [Directory ''sub'' [Directory ''dir'' [File ''app.js'']]] [] = Inr [?fp]"
    using buildFileList_example [of "''/home/ci/a+b/root''"] by (simp add: endsWith_def)
  have up: "s3uploader plusPlatform ''bucket'' ''/home/ci/a+b/root'' ''mobile/'' None ?fp =
      Sends ?params"
    by (simp add: s3uploader_def relativeKey_plus uploadToS3_params_def plusPlatform_def
        demoPlatform_def)
  have ack: "s3_putObject plusPlatform \<lparr>region = None\<rparr> ?params = None"
    by (simp add: plusPlatform_def demoPlatform_def)
  have acc: "fastq_accepts (Finite 100)"
    by (simp add: fastq_accepts_def number_ge_def)
  have tree: "fs_tree plusPlatform ''/home/ci/a+b/root'' =
      Some [Directory ''sub'' [Directory ''dir'' [File ''app.js'']]]"
    by (simp add: plusPlatform_def)
  have w: "uploadPhase plusPlatform ''root'' ''bucket'' ?options =
      \<lparr>w_client = \<lparr>region = None\<rparr>, w_sends = [(\<lparr>region = None\<rparr>, ?params)],
       w_outcome = Returned [Key ?params]\<rparr>"
    using uploads_one_file
        [where uploader = "s3uploader plusPlatform ''bucket'' ''/home/ci/a+b/root'' ''mobile/'' None"
           and filePath = ?fp, OF up ack acc]
    by (simp add: uploadPhase_def d walkDirectory_def tree files s3SpaUpload_concurrency_def
        s3SpaUpload_prefix_def endsWith_def acc del: buildFileList.simps)
  have k: "Key ?params = ''mobile//home/ci/a+b/root/sub/dir/app.js''"
    by (simp add: putObjectParams_def)
  show ?thesis
    by (simp add: d relativeKey_plus s3SpaUpload_def w k)
qed

subsection \<open>Cache-control resolution\<close>

lemma firstMatching_find:
  "firstMatching mm path es = map_option snd (find (\<lambda>e. mm path (fst e)) es)"
  by (induction es) auto

lemma firstMatching_None:
  "firstMatching mm path es = None \<longleftrightarrow> (\<forall>e \<in> set es. \<not> mm path (fst e))"
proof (induction es)
  case Nil
  then show ?case by simp
next
  case (Cons e es)
  then show ?case by (cases e) simp
qed

lemma firstMatching_Some:
  "firstMatching mm path es = Some v \<Longrightarrow> \<exists>glob. (glob, v) \<in> set es \<and> mm path glob"
  by (induction es) (auto split: if_splits)

lemma set_Object_entries: "set (Object_entries m) = set m"
  by (auto simp add: Object_entries_def)

lemma Object_entries_no_index:
  "list_all (\<lambda>e. \<not> isArrayIndex (fst e)) m \<Longrightarrow> Object_entries m = m"
proof -
  assume a: "list_all (\<lambda>e. \<not> isArrayIndex (fst e)) m"
  then have "filter (\<lambda>e. isArrayIndex (fst e)) m = []"
    by (induction m) auto
  moreover from a have "filter (\<lambda>e. \<not> isArrayIndex (fst e)) m = m"
    by (induction m) auto
  ultimately show ?thesis by (simp add: Object_entries_def)
qed

lemma filter_index_Object_entries:
  "filter (\<lambda>e. isArrayIndex (fst e)) (Object_entries m) =
     sort_key (\<lambda>e. natOfDecimal (fst e)) (filter (\<lambda>e. isArrayIndex (fst e)) m)"
  by (simp add: Object_entries_def filter_sort)

text \<open>
  C5, as the code has it. The resolver returns the value of the first entry, in the
  order of \<^verbatim>\<open>Object.entries\<close>, whose pattern the matcher accepts for the path, and
  \<^verbatim>\<open>undefined\<close> exactly when no pattern of the mapping is accepted. That order holds the
  entries of the mapping, those with an array-index key first, by ascending index, and
  then the others in insertion order; it is the insertion order when no key is an array
  index. For the mapping \<open>[(index.html, A), (*.html, B)]\<close> and a path that the matcher
  accepts for \<^verbatim>\<open>index.html\<close> the result is \<open>A\<close>. (The matcher is called with the option
  \<^verbatim>\<open>matchBase\<close>; what it accepts is the library's matter.)
\<close>

theorem getCacheControl_first_match:
  "getCacheControl mm path m =
     map_option snd (find (\<lambda>e. mm path (fst e)) (Object_entries m)) \<and>
   set (Object_entries m) = set m \<and>
   Object_entries m =
     filter (\<lambda>e. isArrayIndex (fst e)) (Object_entries m)
     @ filter (\<lambda>e. \<not> isArrayIndex (fst e)) m \<and>
   sorted (map (\<lambda>e. natOfDecimal (fst e))
     (filter (\<lambda>e. isArrayIndex (fst e)) (Object_entries m))) \<and>
   (list_all (\<lambda>e. \<not> isArrayIndex (fst e)) m \<longrightarrow>
      getCacheControl mm path m = map_option snd (find (\<lambda>e. mm path (fst e)) m)) \<and>
   (getCacheControl mm path m = None \<longleftrightarrow> (\<forall>e \<in> set m. \<not> mm path (fst e))) \<and>
   (mm path ''index.html'' \<longrightarrow>
      getCacheControl mm path [(''index.html'', A), (''*.html'', B)] = Some A)"
proof (intro conjI impI)
  show "getCacheControl mm path m =
      map_option snd (find (\<lambda>e. mm path (fst e)) (Object_entries m))"
    by (simp add: getCacheControl_def firstMatching_find)
  show "set (Object_entries m) = set m"
    by (rule set_Object_entries)
  show "Object_entries m =
     filter (\<lambda>e. isArrayIndex (fst e)) (Object_entries m)
     @ filter (\<lambda>e. \<not> isArrayIndex (fst e)) m"
    unfolding filter_index_Object_entries by (simp add: Object_entries_def)
  show "sorted (map (\<lambda>e. natOfDecimal (fst e))
     (filter (\<lambda>e. isArrayIndex (fst e)) (Object_entries m)))"
    unfolding filter_index_Object_entries by (rule sorted_sort_key)
  show "getCacheControl mm path m = None \<longleftrightarrow> (\<forall>e \<in> set m. \<not> mm path (fst e))"
    by (simp add: getCacheControl_def firstMatching_None set_Object_entries)
next
  assume "list_all (\<lambda>e. \<not> isArrayIndex (fst e)) m"
  then show "getCacheControl mm path m = map_option snd (find (\<lambda>e. mm path (fst e)) m)"
    by (simp add: getCacheControl_def firstMatching_find Object_entries_no_index)
next
  assume a: "mm path ''index.html''"
  have "list_all (\<lambda>e. \<not> isArrayIndex (fst e)) [(''index.html'', A), (''*.html'', B)]"
    by (simp add: isArrayIndex_def isDigit_def digitValue_def)
  then have "Object_entries [(''index.html'', A), (''*.html'', B)] =
      [(''index.html'', A), (''*.html'', B)]"
    by (rule Object_entries_no_index)
  with a show "getCacheControl mm path [(''index.html'', A), (''*.html'', B)] = Some A"
    by (simp add: getCacheControl_def)
qed

theorem getCacheControl_first_match_witness:
  "getCacheControl globMatchBase ''/home/ci/root/index.html''
     [(''index.html'', ''A''), (''*.html'', ''B'')] = Some ''A''"
  using getCacheControl_first_match
    [of globMatchBase "''/home/ci/root/index.html''" "[]" "''A''" "''B''"]
  by (simp add: globMatchBase_def basename_def)

text \<open>
  C5 as stated fails: for a file named \<^verbatim>\<open>404\<close> and the mapping written as
  \<open>[(4??, X), (404, Y)]\<close>, both patterns match and \<open>4??\<close> was inserted first, yet the
  result is \<open>Y\<close>: the key \<^verbatim>\<open>404\<close> is an array index, and \<^verbatim>\<open>Object.entries\<close> yields it
  first.
\<close>

theorem getCacheControl_array_index_first:
  "getCacheControl globMatchBase ''/home/ci/root/404'' [(''4??'', ''X''), (''404'', ''Y'')]
     = Some ''Y'' \<and>
   find (\<lambda>e. globMatchBase ''/home/ci/root/404'' (fst e)) [(''4??'', ''X''), (''404'', ''Y'')]
     = Some (''4??'', ''X'')"
  by (simp add: getCacheControl_def Object_entries_def isArrayIndex_def isDigit_def
      digitValue_def natOfDecimal_def globMatchBase_def basename_def)

text \<open>
  C6. The default mapping holds, in this order: \<^verbatim>\<open>index.html\<close> with a max-age of one
  minute and a stale-while-revalidate of 30 days; \<^verbatim>\<open>*.css\<close> and \<^verbatim>\<open>*.js\<close> with a max-age
  of one year (365 days), immutable; \<^verbatim>\<open>*.png\<close>, \<^verbatim>\<open>*.ico\<close> and \<^verbatim>\<open>*.txt\<close> with a max-age
  of one day and a stale-while-revalidate of 30 days. \<^verbatim>\<open>Object.entries\<close> yields it in
  that order, and it is the mapping a put is resolved against when the caller supplies
  none.
\<close>

theorem default_cache_control_mapping:
  "DEFAULT_CACHE_CONTROL_MAPPING =
     [(''index.html'', ''public,max-age='' @ decimal 60
          @ '',stale-while-revalidate='' @ decimal (30 * 24 * 60 * 60)),
      (''*.css'', ''public,max-age='' @ decimal (365 * 24 * 60 * 60) @ '',immutable''),
      (''*.js'', ''public,max-age='' @ decimal (365 * 24 * 60 * 60) @ '',immutable''),
      (''*.png'', ''public,max-age='' @ decimal (24 * 60 * 60)
          @ '',stale-while-revalidate='' @ decimal (30 * 24 * 60 * 60)),
      (''*.ico'', ''public,max-age='' @ decimal (24 * 60 * 60)
          @ '',stale-while-revalidate='' @ decimal (30 * 24 * 60 * 60)),
      (''*.txt'', ''public,max-age='' @ decimal (24 * 60 * 60)
          @ '',stale-while-revalidate='' @ decimal (30 * 24 * 60 * 60))] \<and>
   Object_entries DEFAULT_CACHE_CONTROL_MAPPING = DEFAULT_CACHE_CONTROL_MAPPING \<and>
   CacheControl (putObjectParams pf bucket key filePath prefix None body) =
     getCacheControl (glob_minimatch pf) filePath DEFAULT_CACHE_CONTROL_MAPPING"
proof (intro conjI)
  show "DEFAULT_CACHE_CONTROL_MAPPING =
     [(''index.html'', ''public,max-age='' @ decimal 60
          @ '',stale-while-revalidate='' @ decimal (30 * 24 * 60 * 60)),
      (''*.css'', ''public,max-age='' @ decimal (365 * 24 * 60 * 60) @ '',immutable''),
      (''*.js'', ''public,max-age='' @ decimal (365 * 24 * 60 * 60) @ '',immutable''),
      (''*.png'', ''public,max-age='' @ decimal (24 * 60 * 60)
          @ '',stale-while-revalidate='' @ decimal (30 * 24 * 60 * 60)),
      (''*.ico'', ''public,max-age='' @ decimal (24 * 60 * 60)
          @ '',stale-while-revalidate='' @ decimal (30 * 24 * 60 * 60)),
      (''*.txt'', ''public,max-age='' @ decimal (24 * 60 * 60)
          @ '',stale-while-revalidate='' @ decimal (30 * 24 * 60 * 60))]"
    by (simp add: DEFAULT_CACHE_CONTROL_MAPPING_def CACHE_ONE_MIN_SWR_ONE_MONTH_def
        CACHE_FOREVER_def CACHE_ONE_DAY_SWR_ONE_MONTH_def decimal.simps)
  show "Object_entries DEFAULT_CACHE_CONTROL_MAPPING = DEFAULT_CACHE_CONTROL_MAPPING"
    by (simp add: DEFAULT_CACHE_CONTROL_MAPPING_def Object_entries_def isArrayIndex_def
        isDigit_def digitValue_def)
  show "CacheControl (putObjectParams pf bucket key filePath prefix None body) =
     getCacheControl (glob_minimatch pf) filePath DEFAULT_CACHE_CONTROL_MAPPING"
    by (simp add: putObjectParams_def)
qed


subsection \<open>The redirect retry\<close>

text \<open>A failure that is not a permanent redirect: one put, nothing constructed, no retry.\<close>

lemma uploadToS3_other_failure:
  assumes "fs_readFile pf filePath = Some body"
    and "s3_putObject pf client (putObjectParams pf bucket key filePath prefix m body) = Some err"
    and "Code err \<noteq> Some ''PermanentRedirect''"
  shows "uploadToS3 pf client bucket key filePath prefix m =
     \<lparr>s3client = client,
      sends = [(client, putObjectParams pf bucket key filePath prefix m body)],
      constructed = [],
      result = Inl (ServiceError err)\<rparr>"
  using assms by (simp add: uploadToS3_def uploadToS3_params_def uploadToS3_catch_def)

text \<open>
  A permanent redirect that names an endpoint: the region handed to the constructor is
  the group of the pattern, or \<^verbatim>\<open>us-east-1\<close> when the pattern does not match. When the
  constructor accepts it, the same put is sent once more, through the new client, which
  stays the module's client; an error of the second put is not caught.
\<close>

lemma uploadToS3_redirect:
  assumes "fs_readFile pf filePath = Some body"
    and "s3_putObject pf client (putObjectParams pf bucket key filePath prefix m body) = Some err"
    and "Code err = Some ''PermanentRedirect''" and "Endpoint err = Some endpoint"
    and "r = (case matchGroup1 redirectRegExp endpoint of None \<Rightarrow> ''us-east-1'' | Some g \<Rightarrow> g)"
    and "S3Client_accepts pf r"
  shows "uploadToS3 pf client bucket key filePath prefix m =
     \<lparr>s3client = \<lparr>region = Some r\<rparr>,
      sends = [(client, putObjectParams pf bucket key filePath prefix m body),
               (\<lparr>region = Some r\<rparr>, putObjectParams pf bucket key filePath prefix m body)],
      constructed = [r],
      result =
        (case s3_putObject pf \<lparr>region = Some r\<rparr>
                (putObjectParams pf bucket key filePath prefix m body) of
           None \<Rightarrow> Inr (Key (putObjectParams pf bucket key filePath prefix m body))
         | Some err' \<Rightarrow> Inl (ServiceError err'))\<rparr>"
  using assms
  by (simp add: uploadToS3_def uploadToS3_params_def uploadToS3_catch_def Let_def
      split: option.splits)

text \<open>When the constructor throws, nothing is sent again and the client stays.\<close>

lemma uploadToS3_redirect_refused:
  assumes "fs_readFile pf filePath = Some body"
    and "s3_putObject pf client (putObjectParams pf bucket key filePath prefix m body) = Some err"
    and "Code err = Some ''PermanentRedirect''" and "Endpoint err = Some endpoint"
    and "r = (case matchGroup1 redirectRegExp endpoint of None \<Rightarrow> ''us-east-1'' | Some g \<Rightarrow> g)"
    and "\<not> S3Client_accepts pf r"
  shows "uploadToS3 pf client bucket key filePath prefix m =
     \<lparr>s3client = client,
      sends = [(client, putObjectParams pf bucket key filePath prefix m body)],
      constructed = [r],
      result = Inl ClientError\<rparr>"
  using assms
  by (simp add: uploadToS3_def uploadToS3_params_def uploadToS3_catch_def Let_def)

lemma redirect_region_eu_west_1:
  "matchGroup1 redirectRegExp ''bucket.s3-eu-west-1.amazonaws.com'' = Some ''eu-west-1''"
  by (simp add: matchGroup1_def redirectRegExp_def literal_def)

lemma redirect_region_dotted:
  "matchGroup1 redirectRegExp ''bucket.s3.eu-west-1.amazonaws.com'' = Some ''eu-west-1''"
  by (simp add: matchGroup1_def redirectRegExp_def literal_def)

lemma redirect_region_no_match:
  "matchGroup1 redirectRegExp ''s3.amazonaws.com'' = None"
  by (simp add: matchGroup1_def redirectRegExp_def literal_def)

lemma redirect_region_legacy:
  "matchGroup1 redirectRegExp ''bucket.s3.amazonaws.com'' = Some ''''"
  by (simp add: matchGroup1_def redirectRegExp_def literal_def)

text \<open>
  The scenario of the spec: the bucket lives in \<^verbatim>\<open>eu-west-1\<close>, the first put goes
  through the default client and is redirected to
  \<^verbatim>\<open>bucket.s3-eu-west-1.amazonaws.com\<close>; the same put is sent once more, through a
  client of \<^verbatim>\<open>eu-west-1\<close>, and the upload succeeds.
\<close>

lemma uploadToS3_redirect_eu_west_1:
  "uploadToS3
     (demoPlatform\<lparr>s3_putObject := regionalStore ''eu-west-1'' ''bucket.s3-eu-west-1.amazonaws.com''\<rparr>)
     \<lparr>region = None\<rparr> ''bucket'' ''index.html'' ''/home/ci/root/index.html'' (Some '''') None =
   \<lparr>s3client = \<lparr>region = Some ''eu-west-1''\<rparr>,
    sends =
      [(\<lparr>region = None\<rparr>,
        putObjectParams demoPlatform ''bucket'' ''index.html'' ''/home/ci/root/index.html''
          (Some '''') None ''...''),
       (\<lparr>region = Some ''eu-west-1''\<rparr>,
        putObjectParams demoPlatform ''bucket'' ''index.html'' ''/home/ci/root/index.html''
          (Some '''') None ''...'')],
    constructed = [''eu-west-1''],
    result = Inr ''index.html''\<rparr>"
  by (simp add: redirect_region_eu_west_1 uploadToS3_def uploadToS3_params_def
      uploadToS3_catch_def demoPlatform_def regionalStore_def Let_def putObjectParams_def)

text \<open>
  C2 at the input on which the code departs from it. The bucket lives in \<^verbatim>\<open>us-east-1\<close>
  and the redirect names its global endpoint \<^verbatim>\<open>bucket.s3.amazonaws.com\<close>, which
  carries no region. The pattern matches it all the same, with the empty string as its
  group (the separator is optional and \<^verbatim>\<open>(.*)\<close> may be empty), and \<^verbatim>\<open>??\<close> keeps an
  empty string: on every platform the region handed to the constructor of the client is
  \<^verbatim>\<open>""\<close>, not \<^verbatim>\<open>us-east-1\<close>. With a constructor that refuses the empty region the
  upload ends there: one put was sent, none is sent again, the module's client is the
  one it was, and the error of the constructor is the result.
\<close>

theorem uploadToS3_legacy_endpoint_region:
  "matchGroup1 redirectRegExp ''bucket.s3.amazonaws.com'' = Some '''' \<and>
   fst (uploadToS3_catch pf
          (S3Error (Some ''PermanentRedirect'') (Some ''bucket.s3.amazonaws.com''))) = [''''] \<and>
   constructed (uploadToS3
      (demoPlatform\<lparr>s3_putObject := regionalStore ''us-east-1'' ''bucket.s3.amazonaws.com''\<rparr>)
      \<lparr>region = None\<rparr> ''bucket'' ''index.html'' ''/home/ci/root/index.html'' (Some '''') None)
     = [''''] \<and>
   map fst (sends (uploadToS3
      (demoPlatform\<lparr>s3_putObject := regionalStore ''us-east-1'' ''bucket.s3.amazonaws.com''\<rparr>)
      \<lparr>region = None\<rparr> ''bucket'' ''index.html'' ''/home/ci/root/index.html'' (Some '''') None))
     = [\<lparr>region = None\<rparr>] \<and>
   s3client (uploadToS3
      (demoPlatform\<lparr>s3_putObject := regionalStore ''us-east-1'' ''bucket.s3.amazonaws.com''\<rparr>)
      \<lparr>region = None\<rparr> ''bucket'' ''index.html'' ''/home/ci/root/index.html'' (Some '''') None)
     = \<lparr>region = None\<rparr> \<and>
   result (uploadToS3
      (demoPlatform\<lparr>s3_putObject := regionalStore ''us-east-1'' ''bucket.s3.amazonaws.com''\<rparr>)
      \<lparr>region = None\<rparr> ''bucket'' ''index.html'' ''/home/ci/root/index.html'' (Some '''') None)
     = Inl ClientError"
proof -
  have g: "matchGroup1 redirectRegExp ''bucket.s3.amazonaws.com'' = Some ''''"
    by (simp add: matchGroup1_def redirectRegExp_def literal_def)
  have c: "fst (uploadToS3_catch pf
      (S3Error (Some ''PermanentRedirect'') (Some ''bucket.s3.amazonaws.com''))) = ['''']"
    by (simp add: uploadToS3_catch_def g Let_def)
  show ?thesis
    by (simp add: g c uploadToS3_def uploadToS3_params_def uploadToS3_catch_def
        demoPlatform_def regionalStore_def Let_def)
qed


subsection \<open>Uploads in flight together\<close>

text \<open>
  With the default concurrency both files of the example site are pushed before any
  answer is looked at. When the bucket lives in another region, both first puts are
  redirected, and each upload builds a client and sends its put again. With a
  concurrency of 1 the second file waits until the first upload has settled, and goes
  through the client that upload has left behind.
\<close>

lemmas run_defs =
  uploadPhase_def resolve_def joinPath_def endsWith_def
  walkDirectory_def demo_files s3SpaUpload_concurrency_def s3SpaUpload_prefix_def
  s3uploader_def uploadToS3_params_def uploadToS3_catch_def Let_def putObjectParams_def
  relativeKey_def beyondParser_def parseRegExp_def putOut_def quantify_def replaceWithEmpty_def
  fastq_accepts_def fastq_starts_def number_ge_def
  uploads.simps step_def blocked_def launch_def release_def failed_def ended_def

lemma uploadPhase_redirect_two_files:
  "map (\<lambda>cp. (region (fst cp), Key (snd cp)))
     (w_sends (uploadPhase
        (demoPlatform\<lparr>s3_putObject := regionalStore ''eu-west-1'' ''bucket.s3-eu-west-1.amazonaws.com''\<rparr>)
        ''root'' ''bucket''
        \<lparr>delete_opt = None, cacheControlMapping_opt = None, prefix_opt = None,
         concurrency_opt = None\<rparr>)) =
     [(None, ''index.html''), (None, ''sub/dir/app.js''),
      (Some ''eu-west-1'', ''index.html''), (Some ''eu-west-1'', ''sub/dir/app.js'')]"
  by (simp add: run_defs demoPlatform_def regionalStore_def redirect_region_eu_west_1)

lemma uploadPhase_redirect_one_at_a_time:
  "map (\<lambda>cp. (region (fst cp), Key (snd cp)))
     (w_sends (uploadPhase
        (demoPlatform\<lparr>s3_putObject := regionalStore ''eu-west-1'' ''bucket.s3-eu-west-1.amazonaws.com''\<rparr>)
        ''root'' ''bucket''
        \<lparr>delete_opt = None, cacheControlMapping_opt = None, prefix_opt = None,
         concurrency_opt = Some (Finite 1)\<rparr>)) =
     [(None, ''index.html''), (Some ''eu-west-1'', ''index.html''),
      (Some ''eu-west-1'', ''sub/dir/app.js'')]"
  by (simp add: run_defs demoPlatform_def regionalStore_def redirect_region_eu_west_1)

text \<open>
  When the store refuses every put, both puts of the example site have been sent by the
  time the first refusal arrives and ends the run.
\<close>

lemma uploadPhase_failure_two_files:
  "map (\<lambda>cp. Key (snd cp))
     (w_sends (uploadPhase
        (demoPlatform\<lparr>s3_putObject := (\<lambda>client params. Some (S3Error (Some ''AccessDenied'') None))\<rparr>)
        ''root'' ''bucket''
        \<lparr>delete_opt = None, cacheControlMapping_opt = None, prefix_opt = None,
         concurrency_opt = None\<rparr>)) = [''index.html'', ''sub/dir/app.js''] \<and>
   w_outcome (uploadPhase
        (demoPlatform\<lparr>s3_putObject := (\<lambda>client params. Some (S3Error (Some ''AccessDenied'') None))\<rparr>)
        ''root'' ''bucket''
        \<lparr>delete_opt = None, cacheControlMapping_opt = None, prefix_opt = None,
         concurrency_opt = None\<rparr>) = Thrown (ServiceError (S3Error (Some ''AccessDenied'') None))"
  by (simp add: run_defs demoPlatform_def)


subsection \<open>The concurrency option\<close>

lemma below_one_refused: "number_lt c (Finite 1) \<Longrightarrow> \<not> fastq_accepts c"
  by (cases c) (auto simp add: fastq_accepts_def number_ge_def)

lemma default_accepted: "fastq_accepts (Finite 100)"
  by (simp add: fastq_accepts_def number_ge_def)

lemma buildFileList_failure:
  "buildFileList directoryPath entries filePaths = Inl e \<Longrightarrow> e = FileSystemError"
  by (induction directoryPath entries filePaths rule: buildFileList.induct)
    (auto split: sum.splits)

text \<open>
  When the constructor of the queue refuses the concurrency, \<^verbatim>\<open>walkDirectory\<close> has
  listed the files and started no upload.
\<close>

lemma walkDirectory_refused:
  assumes "\<not> fastq_accepts concurrency"
  shows "w_sends (walkDirectory pf directoryPath uploader concurrency client) = [] \<and>
    (w_outcome (walkDirectory pf directoryPath uploader concurrency client) = Thrown QueueError \<or>
     w_outcome (walkDirectory pf directoryPath uploader concurrency client) = Thrown FileSystemError) \<and>
    (fs_tree pf directoryPath = Some entries \<and>
     buildFileList directoryPath entries [] = Inr filePaths \<longrightarrow>
       w_outcome (walkDirectory pf directoryPath uploader concurrency client) = Thrown QueueError)"
proof (cases "fs_tree pf directoryPath")
  case None
  then show ?thesis by (simp add: walkDirectory_def)
next
  case (Some es)
  show ?thesis
  proof (cases "buildFileList directoryPath es []")
    case (Inl e)
    with buildFileList_failure [OF Inl] Some assms show ?thesis
      by (auto simp add: walkDirectory_def simp del: buildFileList.simps)
  next
    case (Inr fs)
    with Some assms show ?thesis
      by (auto simp add: walkDirectory_def simp del: buildFileList.simps)
  qed
qed

lemma s3SpaUpload_refused:
  assumes "\<not> fastq_accepts (s3SpaUpload_concurrency options)"
  shows "puts (s3SpaUpload pf dir bucket options) = [] \<and>
    deletions (s3SpaUpload pf dir bucket options) = [] \<and>
    removals (s3SpaUpload pf dir bucket options) = [] \<and>
    (outcome (s3SpaUpload pf dir bucket options) = Thrown QueueError \<or>
     outcome (s3SpaUpload pf dir bucket options) = Thrown FileSystemError) \<and>
    (fs_tree pf (resolve (os_cwd pf) dir) = Some entries \<and>
     buildFileList (resolve (os_cwd pf) dir) entries [] = Inr filePaths \<longrightarrow>
       outcome (s3SpaUpload pf dir bucket options) = Thrown QueueError)"
proof -
  let ?w = "uploadPhase pf dir bucket options"
  from walkDirectory_refused [OF assms, of pf "resolve (os_cwd pf) dir"
      "s3uploader pf bucket (resolve (os_cwd pf) dir) (s3SpaUpload_prefix options)
         (cacheControlMapping_opt options)" "\<lparr>region = None\<rparr>" entries filePaths]
  have w: "w_sends ?w = []"
    "w_outcome ?w = Thrown QueueError \<or> w_outcome ?w = Thrown FileSystemError"
    "fs_tree pf (resolve (os_cwd pf) dir) = Some entries \<and>
     buildFileList (resolve (os_cwd pf) dir) entries [] = Inr filePaths \<longrightarrow>
       w_outcome ?w = Thrown QueueError"
    by (simp_all add: uploadPhase_def Let_def)
  from w(2) show ?thesis
  proof
    assume q: "w_outcome ?w = Thrown QueueError"
    with w(1) show ?thesis by (simp add: s3SpaUpload_def Let_def)
  next
    assume f: "w_outcome ?w = Thrown FileSystemError"
    with w(1,3) show ?thesis by (auto simp add: s3SpaUpload_def Let_def)
  qed
qed

text \<open>The check of the command line, which runs before the core is called.\<close>

lemma main_check:
  "number_lt c (Finite 1) \<Longrightarrow> main pf directory bucketname d m p (Some c) =
     \<lparr>puts = [], deletions = [], removals = [], outcome = Thrown UsageError\<rparr>"
  by (simp add: main_def)

text \<open>
  C7. An unset concurrency becomes 100. With a configured concurrency below 1, be it
  zero, negative, a fraction or minus infinity, the core sends no put and deletes
  nothing: it lists the files and then fails in the constructor of the work queue,
  which it calls before the first upload (when the files cannot be listed, the run has
  failed before that). The command line rejects such a concurrency before it calls the
  core.
\<close>

theorem s3SpaUpload_concurrency_default_and_check:
  "(concurrency_opt options = None \<longrightarrow> s3SpaUpload_concurrency options = Finite 100) \<and>
   (concurrency_opt options = Some c \<and> number_lt c (Finite 1) \<longrightarrow>
      puts (s3SpaUpload pf dir bucket options) = [] \<and>
      deletions (s3SpaUpload pf dir bucket options) = [] \<and>
      removals (s3SpaUpload pf dir bucket options) = [] \<and>
      (outcome (s3SpaUpload pf dir bucket options) = Thrown QueueError \<or>
       outcome (s3SpaUpload pf dir bucket options) = Thrown FileSystemError) \<and>
      (fs_tree pf (resolve (os_cwd pf) dir) = Some entries \<and>
       buildFileList (resolve (os_cwd pf) dir) entries [] = Inr filePaths \<longrightarrow>
         outcome (s3SpaUpload pf dir bucket options) = Thrown QueueError)) \<and>
   (number_lt c (Finite 1) \<longrightarrow>
      main pf directory bucketname d m p (Some c) =
        \<lparr>puts = [], deletions = [], removals = [], outcome = Thrown UsageError\<rparr>)"
proof (intro conjI impI)
  assume "concurrency_opt options = None"
  then show "s3SpaUpload_concurrency options = Finite 100"
    by (simp add: s3SpaUpload_concurrency_def)
next
  assume a: "concurrency_opt options = Some c \<and> number_lt c (Finite 1)"
  then have r: "\<not> fastq_accepts (s3SpaUpload_concurrency options)"
    by (simp add: s3SpaUpload_concurrency_def below_one_refused)
  note s = s3SpaUpload_refused [OF r, of pf dir bucket entries filePaths]
  from s show "puts (s3SpaUpload pf dir bucket options) = []" by simp
  from s show "deletions (s3SpaUpload pf dir bucket options) = []" by simp
  from s show "removals (s3SpaUpload pf dir bucket options) = []" by simp
  from s show "outcome (s3SpaUpload pf dir bucket options) = Thrown QueueError \<or>
      outcome (s3SpaUpload pf dir bucket options) = Thrown FileSystemError" by simp
  assume "fs_tree pf (resolve (os_cwd pf) dir) = Some entries \<and>
    buildFileList (resolve (os_cwd pf) dir) entries [] = Inr filePaths"
  with s show "outcome (s3SpaUpload pf dir bucket options) = Thrown QueueError" by simp
next
  assume "number_lt c (Finite 1)"
  then show "main pf directory bucketname d m p (Some c) =
      \<lparr>puts = [], deletions = [], removals = [], outcome = Thrown UsageError\<rparr>"
    by (rule main_check)
qed

theorem s3SpaUpload_concurrency_default_and_check_witness:
  "s3SpaUpload_concurrency
     \<lparr>delete_opt = None, cacheControlMapping_opt = None, prefix_opt = None,
      concurrency_opt = None\<rparr> = Finite 100 \<and>
   s3SpaUpload demoPlatform ''root'' ''bucket''
     \<lparr>delete_opt = Some True, cacheControlMapping_opt = None, prefix_opt = None,
      concurrency_opt = Some (Finite 0)\<rparr> =
     \<lparr>puts = [], deletions = [], removals = [], outcome = Thrown QueueError\<rparr> \<and>
   main demoPlatform ''root'' ''bucket'' None None None (Some (Finite 0)) =
     \<lparr>puts = [], deletions = [], removals = [], outcome = Thrown UsageError\<rparr>"
  using s3SpaUpload_concurrency_default_and_check
      [of "\<lparr>delete_opt = None, cacheControlMapping_opt = None, prefix_opt = None,
            concurrency_opt = None\<rparr>" "Finite 0" demoPlatform "''root''" "''bucket''"
          demoTree "[''/home/ci/root/index.html'', ''/home/ci/root/sub/dir/app.js'']"
          "''root''" "''bucket''" None None None]
    s3SpaUpload_concurrency_default_and_check
      [of "\<lparr>delete_opt = Some True, cacheControlMapping_opt = None, prefix_opt = None,
            concurrency_opt = Some (Finite 0)\<rparr>" "Finite 0" demoPlatform "''root''" "''bucket''"
          demoTree "[''/home/ci/root/index.html'', ''/home/ci/root/sub/dir/app.js'']"
          "''root''" "''bucket''" None None None]
    demo_files
  by (simp add: demoPlatform_def resolve_def joinPath_def endsWith_def)

text \<open>
  A fraction and minus infinity are below 1 as well, and the default concurrency is
  accepted.
\<close>

lemma s3SpaUpload_refuses_fraction:
  "s3SpaUpload demoPlatform ''root'' ''bucket''
     \<lparr>delete_opt = Some True, cacheControlMapping_opt = None, prefix_opt = None,
      concurrency_opt = Some (Finite (1 / 2))\<rparr> =
     \<lparr>puts = [], deletions = [], removals = [], outcome = Thrown QueueError\<rparr> \<and>
   s3SpaUpload demoPlatform ''root'' ''bucket''
     \<lparr>delete_opt = Some True, cacheControlMapping_opt = None, prefix_opt = None,
      concurrency_opt = Some NegInfinity\<rparr> =
     \<lparr>puts = [], deletions = [], removals = [], outcome = Thrown QueueError\<rparr>"
  by (simp add: s3SpaUpload_def uploadPhase_def walkDirectory_def demoPlatform_def resolve_def
      joinPath_def endsWith_def demo_files s3SpaUpload_concurrency_def fastq_accepts_def
      number_ge_def)

end
